theory Spec2Isabelle
  imports Main
begin

section \<open>The SORA-2 video generator: data model\<close>

text \<open>
  The module \<^verbatim>\<open>sora_video_generator.py\<close> talks to three collaborators: the remote
  video service (create, retrieve, download_content), the local file system and the
  clock. Their answers are inputs of a run; the module's own effects are recorded as a
  trace of events.

  The \<^verbatim>\<open>print\<close> calls and the clock readings that only feed them (lines 53, 72,
  87) write to standard output alone; they are left out and taken not to raise.
\<close>

type_synonym bytes = string

text \<open>
  A raised Python exception. \<open>Exception\<close> stands for an instance of the class
  \<^verbatim>\<open>Exception\<close>, which is what the handler of line 100 and of line 172 catches;
  \<open>BaseException\<close> stands for one that is no instance of it (KeyboardInterrupt,
  SystemExit), which that handler lets through.
\<close>

datatype py_exception = Exception string | BaseException string

datatype 'a outcome = Returns 'a | Raises py_exception

text \<open>The job object the service returns: \<^verbatim>\<open>video.id\<close> and \<^verbatim>\<open>video.status\<close>.\<close>

record video =
  video_id :: string
  status :: string

text \<open>The keyword arguments of \<^verbatim>\<open>client.videos.create\<close>; the reference image is
  the open file object, named here by its path.\<close>

record create_args =
  arg_model :: string
  arg_prompt :: string
  arg_input_reference :: "string option"
  arg_size :: string
  arg_seconds :: int

text \<open>What \<^verbatim>\<open>content.write_to_file\<close> meets on the disk: success, a failure to
  open the target, or a failure after some bytes were written.\<close>

datatype disk_script = WriteSucceeds | OpenFails py_exception | WriteFailsAfter nat py_exception

record datetime =
  year :: nat
  month :: nat
  day :: nat
  hour :: nat
  minute :: nat
  second :: nat
  microsecond :: nat

text \<open>
  The inputs of one run: the answer of the create call, the answer of the k-th retrieve
  call (k counted from 0), the answer of the download call, the behaviour of the disk
  at the write, and the reading of \<^verbatim>\<open>datetime.datetime.now()\<close> that names the file.
\<close>

record env =
  create_response :: "video outcome"
  retrieve_response :: "nat \<Rightarrow> video outcome"
  download_response :: "bytes outcome"
  disk :: disk_script
  now :: datetime

datatype event =
    Open string string
  | Close string
  | Create create_args "video outcome"
  | Sleep nat
  | Retrieve string "video outcome"
  | DownloadContent string string "bytes outcome"
  | WriteToFile string bytes "unit outcome"

datatype node = File bytes | Dir

record world =
  fs :: "string \<rightharpoonup> node"
  trace :: "event list"
  open_files :: "string list"

text \<open>What a call of a run function does: it returns a string, \<^verbatim>\<open>False\<close> or
  \<^verbatim>\<open>None\<close>, or an exception leaves it.\<close>

datatype py_result = ReturnsStr string | ReturnsFalse | ReturnsNone | Propagates py_exception

section \<open>The collaborators\<close>

definition emit :: "event \<Rightarrow> world \<Rightarrow> world" where
  "emit e w = w\<lparr>trace := trace w @ [e]\<rparr>"

fun is_Retrieve :: "event \<Rightarrow> bool" where
  "is_Retrieve (Retrieve i r) = True"
| "is_Retrieve _ = False"

definition fetch_count :: "event list \<Rightarrow> nat" where
  "fetch_count evs = length (filter is_Retrieve evs)"

definition videos_create :: "env \<Rightarrow> create_args \<Rightarrow> world \<Rightarrow> video outcome \<times> world" where
  "videos_create env args w = (create_response env, emit (Create args (create_response env)) w)"

text \<open>The answer to a retrieve call is the script's entry for the number of retrieve
  calls made before it.\<close>

definition videos_retrieve :: "env \<Rightarrow> string \<Rightarrow> world \<Rightarrow> video outcome \<times> world" where
  "videos_retrieve env i w =
     (let r = retrieve_response env (fetch_count (trace w))
      in (r, emit (Retrieve i r) w))"

definition videos_download_content :: "env \<Rightarrow> string \<Rightarrow> string \<Rightarrow> world \<Rightarrow> bytes outcome \<times> world" where
  "videos_download_content env i variant w =
     (download_response env, emit (DownloadContent i variant (download_response env)) w)"

definition write_to_file :: "env \<Rightarrow> bytes \<Rightarrow> string \<Rightarrow> world \<Rightarrow> unit outcome \<times> world" where
  "write_to_file env content path w =
     (case disk env of
        WriteSucceeds \<Rightarrow>
          (Returns (), emit (WriteToFile path content (Returns ())) (w\<lparr>fs := (fs w)(path \<mapsto> File content)\<rparr>))
      | OpenFails e \<Rightarrow>
          (Raises e, emit (WriteToFile path content (Raises e)) w)
      | WriteFailsAfter n e \<Rightarrow>
          (Raises e, emit (WriteToFile path content (Raises e)) (w\<lparr>fs := (fs w)(path \<mapsto> File (take n content))\<rparr>)))"

definition time_sleep :: "nat \<Rightarrow> world \<Rightarrow> world" where
  "time_sleep n w = emit (Sleep n) w"

text \<open>\<^verbatim>\<open>open(path, "rb")\<close>: a regular file opens; a directory or a missing path raises
  an OSError, which is an instance of Exception.\<close>

definition py_open :: "string \<Rightarrow> string \<Rightarrow> world \<Rightarrow> string outcome \<times> world" where
  "py_open path mode w =
     (case fs w path of
        Some (File b) \<Rightarrow> (Returns path, emit (Open path mode) (w\<lparr>open_files := path # open_files w\<rparr>))
      | Some Dir \<Rightarrow> (Raises (Exception ''IsADirectoryError''), w)
      | None \<Rightarrow> (Raises (Exception ''FileNotFoundError''), w))"

definition py_close :: "string \<Rightarrow> world \<Rightarrow> world" where
  "py_close f w = emit (Close f) (w\<lparr>open_files := remove1 f (open_files w)\<rparr>)"

section \<open>The run functions\<close>

definition VIDEO_DIR :: string where
  "VIDEO_DIR = ''videos''"

text \<open>The statuses that end the poll loop (lines 71 and 145).\<close>

definition terminal :: "string list" where
  "terminal = [''completed'', ''failed'', ''cancelled'']"

text \<open>\<^verbatim>\<open>os.path.join\<close> with two components, as posixpath defines it.\<close>

definition os_path_join :: "string \<Rightarrow> string \<Rightarrow> string" where
  "os_path_join a b =
     (if b \<noteq> [] \<and> hd b = CHR ''/'' then b
      else if a = [] \<or> last a = CHR ''/'' then a @ b
      else a @ ''/'' @ b)"

text \<open>\<^verbatim>\<open>strftime\<close>: \<^verbatim>\<open>%d\<close>, \<^verbatim>\<open>%H\<close>, \<^verbatim>\<open>%M\<close> and \<^verbatim>\<open>%S\<close> are two decimal digits,
  \<^verbatim>\<open>%Y\<close> is the year in four, \<^verbatim>\<open>%b\<close> is the month's abbreviated name in the C
  locale.\<close>

definition digit :: "nat \<Rightarrow> char" where
  "digit n = ''0123456789'' ! (n mod 10)"

definition two_digits :: "nat \<Rightarrow> string" where
  "two_digits n = [digit (n div 10), digit n]"

definition four_digits :: "nat \<Rightarrow> string" where
  "four_digits n = [digit (n div 1000), digit (n div 100), digit (n div 10), digit n]"

definition month_abbr :: "string list" where
  "month_abbr = [''Jan'', ''Feb'', ''Mar'', ''Apr'', ''May'', ''Jun'',
                 ''Jul'', ''Aug'', ''Sep'', ''Oct'', ''Nov'', ''Dec'']"

text \<open>\<^verbatim>\<open>strftime('%d%b%Y_%H%M%S')\<close> of lines 84 and 156.\<close>

definition strftime_file :: "datetime \<Rightarrow> string" where
  "strftime_file d =
     two_digits (day d) @ month_abbr ! (month d - 1) @ four_digits (year d) @ ''_'' @
     two_digits (hour d) @ two_digits (minute d) @ two_digits (second d)"

text \<open>The handler of lines 100-102 and 172-174: \<^verbatim>\<open>except Exception\<close> returns
  \<^verbatim>\<open>False\<close>; any other exception leaves the function.\<close>

fun except_Exception :: "py_exception \<Rightarrow> world \<Rightarrow> py_result \<times> world" where
  "except_Exception (Exception msg) w = (ReturnsFalse, w)"
| "except_Exception (BaseException msg) w = (Propagates (BaseException msg), w)"

text \<open>The loop of lines 71-75. Its result is the terminal job, or the exception that
  the retrieve call raised; \<open>None\<close> is a loop that never ends.\<close>

partial_function (option) text_poll :: "env \<Rightarrow> video \<Rightarrow> world \<Rightarrow> (video outcome \<times> world) option" where
  "text_poll env video w =
     (if status video \<notin> set terminal then
        (case videos_retrieve env (video_id video) (time_sleep 10 w) of
           (Raises e, w') \<Rightarrow> Some (Raises e, w')
         | (Returns video', w') \<Rightarrow> text_poll env video' w')
      else Some (Returns video, w))"

text \<open>Lines 33-102.\<close>

definition text_to_video_sora2 ::
  "env \<Rightarrow> string \<Rightarrow> string \<Rightarrow> int \<Rightarrow> world \<Rightarrow> (py_result \<times> world) option" where
  "text_to_video_sora2 env prompt size' seconds w =
     (case videos_create env
             \<lparr>arg_model = ''sora-2'', arg_prompt = prompt, arg_input_reference = None,
              arg_size = size', arg_seconds = seconds\<rparr> w of
        (Raises e, w1) \<Rightarrow> Some (except_Exception e w1)
      | (Returns video0, w1) \<Rightarrow>
          (case text_poll env video0 w1 of
             None \<Rightarrow> None
           | Some (Raises e, w2) \<Rightarrow> Some (except_Exception e w2)
           | Some (Returns video, w2) \<Rightarrow>
               (if status video = ''completed'' then
                  (case videos_download_content env (video_id video) ''video'' w2 of
                     (Raises e, w3) \<Rightarrow> Some (except_Exception e w3)
                   | (Returns content, w3) \<Rightarrow>
                       (let sora2_videofile =
                              os_path_join VIDEO_DIR
                                (''sora2_video_'' @ strftime_file (now env) @ ''.mp4'')
                        in case write_to_file env content sora2_videofile w3 of
                             (Raises e, w4) \<Rightarrow> Some (except_Exception e w4)
                           | (Returns u, w4) \<Rightarrow> Some (ReturnsStr sora2_videofile, w4)))
                else if status video = ''failed'' then Some (ReturnsFalse, w2)
                else if status video = ''cancelled'' then Some (ReturnsFalse, w2)
                else Some (ReturnsNone, w2))))"

text \<open>The loop of lines 145-149.\<close>

partial_function (option) image_poll :: "env \<Rightarrow> video \<Rightarrow> world \<Rightarrow> (video outcome \<times> world) option" where
  "image_poll env video w =
     (if status video \<notin> set terminal then
        (case videos_retrieve env (video_id video) (time_sleep 10 w) of
           (Raises e, w') \<Rightarrow> Some (Raises e, w')
         | (Returns video', w') \<Rightarrow> image_poll env video' w')
      else Some (Returns video, w))"

text \<open>Lines 105-174. The \<^verbatim>\<open>with\<close> block of lines 133-140 closes the file when the
  create call has returned and when it has raised, before the exception travels on.\<close>

definition image_to_video_sora2 ::
  "env \<Rightarrow> string \<Rightarrow> string \<Rightarrow> string \<Rightarrow> int \<Rightarrow> world \<Rightarrow> (py_result \<times> world) option" where
  "image_to_video_sora2 env prompt image_file size' seconds w =
     (case py_open image_file ''rb'' w of
        (Raises e, w0) \<Rightarrow> Some (except_Exception e w0)
      | (Returns f, w0) \<Rightarrow>
          (case videos_create env
                  \<lparr>arg_model = ''sora-2'', arg_prompt = prompt, arg_input_reference = Some f,
                   arg_size = size', arg_seconds = seconds\<rparr> w0 of
             (Raises e, w1) \<Rightarrow> Some (except_Exception e (py_close f w1))
           | (Returns video0, w1) \<Rightarrow>
               (case image_poll env video0 (py_close f w1) of
                  None \<Rightarrow> None
                | Some (Raises e, w2) \<Rightarrow> Some (except_Exception e w2)
                | Some (Returns video, w2) \<Rightarrow>
                    (if status video = ''completed'' then
                       (case videos_download_content env (video_id video) ''video'' w2 of
                          (Raises e, w3) \<Rightarrow> Some (except_Exception e w3)
                        | (Returns content, w3) \<Rightarrow>
                            (let sora2_videofile =
                                   os_path_join VIDEO_DIR
                                     (''sora2_video_'' @ strftime_file (now env) @ ''.mp4'')
                             in case write_to_file env content sora2_videofile w3 of
                                  (Raises e, w4) \<Rightarrow> Some (except_Exception e w4)
                                | (Returns u, w4) \<Rightarrow> Some (ReturnsStr sora2_videofile, w4)))
                     else if status video = ''failed'' then Some (ReturnsFalse, w2)
                     else if status video = ''cancelled'' then Some (ReturnsFalse, w2)
                     else Some (ReturnsNone, w2)))))"

text \<open>A call of one of the two public functions, with its arguments.\<close>

datatype call = TextToVideo string string int | ImageToVideo string string string int

fun run :: "env \<Rightarrow> call \<Rightarrow> world \<Rightarrow> (py_result \<times> world) option" where
  "run env (TextToVideo prompt size' seconds) w = text_to_video_sora2 env prompt size' seconds w"
| "run env (ImageToVideo prompt image_file size' seconds) w =
     image_to_video_sora2 env prompt image_file size' seconds w"

text \<open>The world a run starts in: the files on the disk, nothing done yet, no file open.\<close>

definition fresh :: "(string \<rightharpoonup> node) \<Rightarrow> world" where
  "fresh files = \<lparr>fs = files, trace = [], open_files = []\<rparr>"

text \<open>The path of lines 82-85 and 154-157 for a clock reading.\<close>

definition videofile :: "datetime \<Rightarrow> string" where
  "videofile d = os_path_join VIDEO_DIR (''sora2_video_'' @ strftime_file d @ ''.mp4'')"

section \<open>Module set-up\<close>

text \<open>\<^verbatim>\<open>os.makedirs(name, exist_ok)\<close> for a name of one component: the directory is made
  when nothing has the name; when something has it, the call raises FileExistsError
  unless \<^verbatim>\<open>exist_ok\<close> is set and the thing is a directory.\<close>

definition os_makedirs :: "string \<Rightarrow> bool \<Rightarrow> (string \<rightharpoonup> node) \<Rightarrow> (string \<rightharpoonup> node) outcome" where
  "os_makedirs name exist_ok files =
     (case files name of
        None \<Rightarrow> Returns (files(name \<mapsto> Dir))
      | Some n \<Rightarrow>
          if exist_ok \<and> n = Dir then Returns files
          else Raises (Exception ''FileExistsError''))"

text \<open>Line 31, run when the module is loaded.\<close>

definition module_setup :: "(string \<rightharpoonup> node) \<Rightarrow> (string \<rightharpoonup> node) outcome" where
  "module_setup files = os_makedirs VIDEO_DIR True files"

section \<open>The run functions, one effect at a time\<close>

text \<open>
  The same two functions as a transition system whose steps each perform one call to a
  collaborator. The program points are: before the \<^verbatim>\<open>try\<close>; inside the \<^verbatim>\<open>with\<close>
  block before the create call; leaving the \<^verbatim>\<open>with\<close> block with the outcome of the
  create call; the loop test; after the sleep; after the download; in the handler;
  returned.
\<close>

datatype pc =
    Start
  | Opened string
  | Exiting string "video outcome"
  | Polling video
  | Fetching video
  | Downloaded video bytes
  | Handling py_exception
  | Done py_result

fun step :: "env \<Rightarrow> call \<Rightarrow> pc \<times> world \<Rightarrow> (pc \<times> world) option" where
  "step env (TextToVideo prompt size' seconds) (Start, w) =
     (case videos_create env
             \<lparr>arg_model = ''sora-2'', arg_prompt = prompt, arg_input_reference = None,
              arg_size = size', arg_seconds = seconds\<rparr> w of
        (Raises e, w1) \<Rightarrow> Some (Handling e, w1)
      | (Returns video0, w1) \<Rightarrow> Some (Polling video0, w1))"
| "step env (ImageToVideo prompt image_file size' seconds) (Start, w) =
     (case py_open image_file ''rb'' w of
        (Raises e, w0) \<Rightarrow> Some (Handling e, w0)
      | (Returns f, w0) \<Rightarrow> Some (Opened f, w0))"
| "step env (ImageToVideo prompt image_file size' seconds) (Opened f, w) =
     (case videos_create env
             \<lparr>arg_model = ''sora-2'', arg_prompt = prompt, arg_input_reference = Some f,
              arg_size = size', arg_seconds = seconds\<rparr> w of
        (r, w1) \<Rightarrow> Some (Exiting f r, w1))"
| "step env (TextToVideo prompt size' seconds) (Opened f, w) = None"
| "step env c (Exiting f (Raises e), w) = Some (Handling e, py_close f w)"
| "step env c (Exiting f (Returns video0), w) = Some (Polling video0, py_close f w)"
| "step env c (Polling video, w) =
     (if status video \<notin> set terminal then Some (Fetching video, time_sleep 10 w)
      else if status video = ''completed'' then
        (case videos_download_content env (video_id video) ''video'' w of
           (Raises e, w3) \<Rightarrow> Some (Handling e, w3)
         | (Returns content, w3) \<Rightarrow> Some (Downloaded video content, w3))
      else if status video = ''failed'' then Some (Done ReturnsFalse, w)
      else if status video = ''cancelled'' then Some (Done ReturnsFalse, w)
      else Some (Done ReturnsNone, w))"
| "step env c (Fetching video, w) =
     (case videos_retrieve env (video_id video) w of
        (Raises e, w') \<Rightarrow> Some (Handling e, w')
      | (Returns video', w') \<Rightarrow> Some (Polling video', w'))"
| "step env c (Downloaded video content, w) =
     (let sora2_videofile =
            os_path_join VIDEO_DIR (''sora2_video_'' @ strftime_file (now env) @ ''.mp4'')
      in case write_to_file env content sora2_videofile w of
           (Raises e, w4) \<Rightarrow> Some (Handling e, w4)
         | (Returns u, w4) \<Rightarrow> Some (Done (ReturnsStr sora2_videofile), w4))"
| "step env c (Handling e, w) =
     (case except_Exception e w of (r, w') \<Rightarrow> Some (Done r, w'))"
| "step env c (Done r, w) = None"

inductive reaches :: "env \<Rightarrow> call \<Rightarrow> pc \<times> world \<Rightarrow> pc \<times> world \<Rightarrow> bool"
  for env :: env and c :: call and a :: "pc \<times> world" where
  reaches_here: "reaches env c a a"
| reaches_step: "reaches env c a b \<Longrightarrow> step env c b = Some b' \<Longrightarrow> reaches env c a b'"

definition reachable :: "env \<Rightarrow> call \<Rightarrow> world \<Rightarrow> pc \<times> world \<Rightarrow> bool" where
  "reachable env c w0 b = reaches env c (Start, w0) b"

section \<open>Reading a trace\<close>

text \<open>The status a job is seen with: the events that hand the program a job object are a
  create call and a retrieve call that return.\<close>

fun observed :: "event \<Rightarrow> string option" where
  "observed (Create args (Returns video)) = Some (status video)"
| "observed (Retrieve i (Returns video)) = Some (status video)"
| "observed _ = None"

fun status_after :: "string option \<Rightarrow> event list \<Rightarrow> string option" where
  "status_after s [] = s"
| "status_after s (e # evs) =
     status_after (case observed e of None \<Rightarrow> s | Some s' \<Rightarrow> Some s') evs"

text \<open>The status last observed in a trace, if any.\<close>

definition last_status :: "event list \<Rightarrow> string option" where
  "last_status evs = status_after None evs"

fun is_DownloadContent :: "event \<Rightarrow> bool" where
  "is_DownloadContent (DownloadContent i variant r) = True"
| "is_DownloadContent _ = False"

fun is_WriteToFile :: "event \<Rightarrow> bool" where
  "is_WriteToFile (WriteToFile path content r) = True"
| "is_WriteToFile _ = False"

fun is_Open :: "event \<Rightarrow> bool" where
  "is_Open (Open path mode) = True"
| "is_Open _ = False"

definition download_count :: "event list \<Rightarrow> nat" where
  "download_count evs = length (filter is_DownloadContent evs)"

definition write_count :: "event list \<Rightarrow> nat" where
  "write_count evs = length (filter is_WriteToFile evs)"

text \<open>The number of retrieve calls before the first download call; \<open>None\<close> when the
  trace has no download call.\<close>

fun fetches_before_download :: "event list \<Rightarrow> nat option" where
  "fetches_before_download [] = None"
| "fetches_before_download (e # evs) =
     (if is_DownloadContent e then Some 0
      else map_option (\<lambda>n. if is_Retrieve e then Suc n else n) (fetches_before_download evs))"

text \<open>Every write of the trace happens while the status last observed is
  \<^verbatim>\<open>completed\<close>; the first argument is the status observed before the trace.\<close>

fun writes_guarded :: "string option \<Rightarrow> event list \<Rightarrow> bool" where
  "writes_guarded s [] = True"
| "writes_guarded s (e # evs) =
     ((is_WriteToFile e \<longrightarrow> s = Some ''completed'') \<and>
      writes_guarded (case observed e of None \<Rightarrow> s | Some s' \<Rightarrow> Some s') evs)"

text \<open>The program points at which the \<^verbatim>\<open>with\<close> block of lines 133-140 holds the
  image file.\<close>

fun in_with_block :: "pc \<Rightarrow> bool" where
  "in_with_block (Opened f) = True"
| "in_with_block (Exiting f r) = True"
| "in_with_block _ = False"

fun is_polling :: "pc \<Rightarrow> bool" where
  "is_polling (Polling video) = True"
| "is_polling (Fetching video) = True"
| "is_polling _ = False"

section \<open>Scripts of the remote service\<close>


text \<open>An answer that keeps the loop going: a job whose status is not terminal.\<close>

fun pending :: "video outcome \<Rightarrow> bool" where
  "pending (Raises e) = False"
| "pending (Returns video) = (status video \<notin> set terminal)"






text \<open>The poll loop unrolled at most \<open>n\<close> times, as a function of the script alone: the
  outcome and the events of the loop when it ends within \<open>n\<close> retrieve calls, starting
  at the retrieve call number \<open>k\<close>.\<close>

fun poll_run :: "env \<Rightarrow> nat \<Rightarrow> nat \<Rightarrow> video \<Rightarrow> (video outcome \<times> event list) option" where
  "poll_run env 0 k video =
     (if status video \<notin> set terminal then None else Some (Returns video, []))"
| "poll_run env (Suc n) k video =
     (if status video \<notin> set terminal then
        (case retrieve_response env k of
           Raises e \<Rightarrow> Some (Raises e, [Sleep 10, Retrieve (video_id video) (Raises e)])
         | Returns video' \<Rightarrow>
             map_option (\<lambda>(r, evs). (r, Sleep 10 # Retrieve (video_id video) (Returns video') # evs))
               (poll_run env n (Suc k) video'))
      else Some (Returns video, []))"

definition extend :: "world \<Rightarrow> event list \<Rightarrow> world" where
  "extend w evs = w\<lparr>trace := trace w @ evs\<rparr>"

text \<open>Scripted services: the job is created with the status \<^verbatim>\<open>queued\<close>; the first
  \<open>N\<close> retrieve calls find it \<^verbatim>\<open>queued\<close>, the later ones with the status \<open>final\<close>;
  the content is \<^verbatim>\<open>b"FAKEMP4"\<close>; the disk works; the clock reads 15 March 2025,
  14:30:22.\<close>

definition job :: "string \<Rightarrow> video" where
  "job s = \<lparr>video_id = ''video_123'', status = s\<rparr>"

definition scripted :: "nat \<Rightarrow> string \<Rightarrow> env" where
  "scripted N final =
     \<lparr>create_response = Returns (job ''queued''),
      retrieve_response = (\<lambda>k. Returns (job (if k < N then ''queued'' else final))),
      download_response = Returns ''FAKEMP4'',
      disk = WriteSucceeds,
      now = \<lparr>year = 2025, month = 3, day = 15, hour = 14, minute = 30, second = 22,
             microsecond = 0\<rparr>\<rparr>"


section \<open>The clock\<close>









text \<open>A service that rejects the request: the create call raises.\<close>

definition rejecting :: env where
  "rejecting = (scripted 0 ''completed'')\<lparr>create_response := Raises (Exception ''BadRequestError'')\<rparr>"

section \<open>The common part of the two functions\<close>

text \<open>What either function does once its loop has ended with a terminal job or with an
  exception (lines 77-102 and 151-174), for use in the proofs.\<close>

definition after_poll :: "env \<Rightarrow> video outcome \<Rightarrow> world \<Rightarrow> py_result \<times> world" where
  "after_poll env r w =
     (case r of
        Raises e \<Rightarrow> except_Exception e w
      | Returns video \<Rightarrow>
          (if status video = ''completed'' then
             (case videos_download_content env (video_id video) ''video'' w of
                (Raises e, w3) \<Rightarrow> except_Exception e w3
              | (Returns content, w3) \<Rightarrow>
                  (case write_to_file env content (videofile (now env)) w3 of
                     (Raises e, w4) \<Rightarrow> except_Exception e w4
                   | (Returns u, w4) \<Rightarrow> (ReturnsStr (videofile (now env)), w4)))
           else if status video = ''failed'' then (ReturnsFalse, w)
           else if status video = ''cancelled'' then (ReturnsFalse, w)
           else (ReturnsNone, w)))"

text \<open>Whether the call can open its reference image; a text call has none.\<close>

fun readable :: "call \<Rightarrow> (string \<rightharpoonup> node) \<Rightarrow> bool" where
  "readable (TextToVideo prompt size' seconds) files = True"
| "readable (ImageToVideo prompt image_file size' seconds) files =
     (case files image_file of Some (File b) \<Rightarrow> True | Some Dir \<Rightarrow> False | None \<Rightarrow> False)"

text \<open>The events of the poll loop.\<close>

fun is_poll_event :: "event \<Rightarrow> bool" where
  "is_poll_event (Sleep n) = True"
| "is_poll_event (Retrieve i r) = True"
| "is_poll_event _ = False"

text \<open>What the status last observed is at the program points that hold a job.\<close>

fun point_status :: "pc \<Rightarrow> string option" where
  "point_status (Exiting f (Returns video)) = Some (status video)"
| "point_status (Polling video) = Some (status video)"
| "point_status (Fetching video) = Some (status video)"
| "point_status (Downloaded video content) = Some ''completed''"
| "point_status _ = None"


text \<open>What is seen of a run after its first \<open>n\<close> events: the result, the disk, the
  open files and the rest of the trace.\<close>

definition after_events ::
  "nat \<Rightarrow> py_result \<times> world \<Rightarrow> py_result \<times> (string \<rightharpoonup> node) \<times> string list \<times> event list" where
  "after_events n = (\<lambda>(r, w). (r, fs w, open_files w, drop n (trace w)))"

section \<open>Basic facts\<close>

lemma extend_Nil [simp]: "extend w [] = w"
  by (simp add: extend_def)

lemma extend_extend [simp]: "extend (extend w xs) ys = extend w (xs @ ys)"
  by (simp add: extend_def)

lemma trace_extend [simp]: "trace (extend w xs) = trace w @ xs"
  by (simp add: extend_def)

lemma fs_extend [simp]: "fs (extend w xs) = fs w"
  by (simp add: extend_def)

lemma open_files_extend [simp]: "open_files (extend w xs) = open_files w"
  by (simp add: extend_def)

lemma emit_extend: "emit e w = extend w [e]"
  by (simp add: emit_def extend_def)

lemma fetch_count_append [simp]: "fetch_count (xs @ ys) = fetch_count xs + fetch_count ys"
  by (simp add: fetch_count_def)

lemma fetch_count_Nil [simp]: "fetch_count [] = 0"
  by (simp add: fetch_count_def)

lemma fetch_count_Cons [simp]:
  "fetch_count (e # evs) = (if is_Retrieve e then Suc (fetch_count evs) else fetch_count evs)"
  by (simp add: fetch_count_def)

lemma videos_create_extend:
  "videos_create env args w = (create_response env, extend w [Create args (create_response env)])"
  by (simp add: videos_create_def emit_extend)

lemma videos_download_content_extend:
  "videos_download_content env i variant w =
     (download_response env, extend w [DownloadContent i variant (download_response env)])"
  by (simp add: videos_download_content_def emit_extend)

lemma retrieve_after_sleep:
  "videos_retrieve env i (time_sleep 10 w) =
     (retrieve_response env (fetch_count (trace w)),
      extend w [Sleep 10, Retrieve i (retrieve_response env (fetch_count (trace w)))])"
  by (simp add: videos_retrieve_def time_sleep_def emit_def extend_def Let_def)

lemma py_close_extend:
  "py_close f w = extend (w\<lparr>open_files := remove1 f (open_files w)\<rparr>) [Close f]"
  by (simp add: py_close_def emit_extend)

lemma fs_py_close [simp]: "fs (py_close f w) = fs w"
  by (simp add: py_close_extend)

lemma trace_py_close [simp]: "trace (py_close f w) = trace w @ [Close f]"
  by (simp add: py_close_extend)

lemma open_files_py_close [simp]: "open_files (py_close f w) = remove1 f (open_files w)"
  by (simp add: py_close_extend)

lemma write_count_append [simp]: "write_count (xs @ ys) = write_count xs + write_count ys"
  by (simp add: write_count_def)

lemma write_count_Nil [simp]: "write_count [] = 0"
  by (simp add: write_count_def)

lemma write_count_Cons [simp]:
  "write_count (e # evs) = (if is_WriteToFile e then Suc (write_count evs) else write_count evs)"
  by (simp add: write_count_def)

lemma download_count_append [simp]:
  "download_count (xs @ ys) = download_count xs + download_count ys"
  by (simp add: download_count_def)

lemma download_count_Nil [simp]: "download_count [] = 0"
  by (simp add: download_count_def)

lemma download_count_Cons [simp]:
  "download_count (e # evs) =
     (if is_DownloadContent e then Suc (download_count evs) else download_count evs)"
  by (simp add: download_count_def)

lemma py_open_cases:
  "(\<exists>b. fs w image_file = Some (File b) \<and>
        py_open image_file mode w =
          (Returns image_file, extend (w\<lparr>open_files := image_file # open_files w\<rparr>) [Open image_file mode])) \<or>
   (\<exists>msg. py_open image_file mode w = (Raises (Exception msg), w))"
  by (cases "fs w image_file"; simp add: py_open_def emit_extend split: node.splits)

section \<open>The loops and their unrolling\<close>

lemma text_poll_sound:
  "poll_run env n (fetch_count (trace w)) video = Some (r, evs) \<Longrightarrow>
   text_poll env video w = Some (r, extend w evs)"
proof (induction n arbitrary: w video r evs)
  case 0
  then show ?case
    by (subst text_poll.simps) (simp split: if_splits)
next
  case (Suc n)
  show ?case
  proof (cases "status video \<notin> set terminal")
    case False
    with Suc.prems show ?thesis
      by (subst text_poll.simps) simp
  next
    case True
    note nonterm = this
    show ?thesis
    proof (cases "retrieve_response env (fetch_count (trace w))")
      case (Raises e)
      from Suc.prems nonterm Raises
      have "r = Raises e" "evs = [Sleep 10, Retrieve (video_id video) (Raises e)]"
        by auto
      with nonterm Raises show ?thesis
        by (subst text_poll.simps) (simp add: retrieve_after_sleep)
    next
      case (Returns video')
      let ?w' = "extend w [Sleep 10, Retrieve (video_id video) (Returns video')]"
      from Suc.prems nonterm Returns obtain evs' where
        rec: "poll_run env n (Suc (fetch_count (trace w))) video' = Some (r, evs')"
        and evs: "evs = Sleep 10 # Retrieve (video_id video) (Returns video') # evs'"
        by auto
      have "fetch_count (trace ?w') = Suc (fetch_count (trace w))"
        by simp
      with rec Suc.IH [of ?w' video' r evs']
      have "text_poll env video' ?w' = Some (r, extend ?w' evs')"
        by simp
      with nonterm Returns evs show ?thesis
        by (subst text_poll.simps) (simp add: retrieve_after_sleep)
    qed
  qed
qed

lemma text_poll_complete:
  "text_poll env video w = Some y \<Longrightarrow>
   \<exists>n evs. poll_run env n (fetch_count (trace w)) video = Some (fst y, evs) \<and> snd y = extend w evs"
proof (induct rule: text_poll.raw_induct [rotated 1, consumes 1])
  case (1 poll env video w y)
  show ?case
  proof (cases "status video \<notin> set terminal")
    case False
    with 1(2) have "poll_run env 0 (fetch_count (trace w)) video = Some (fst y, []) \<and> snd y = extend w []"
      by auto
    then show ?thesis by blast
  next
    case True
    note nonterm = this
    show ?thesis
    proof (cases "retrieve_response env (fetch_count (trace w))")
      case (Raises e)
      with 1(2) nonterm
      have "poll_run env (Suc 0) (fetch_count (trace w)) video =
              Some (fst y, [Sleep 10, Retrieve (video_id video) (Raises e)]) \<and>
            snd y = extend w [Sleep 10, Retrieve (video_id video) (Raises e)]"
        by (auto simp: retrieve_after_sleep)
      then show ?thesis by blast
    next
      case (Returns video')
      let ?w' = "extend w [Sleep 10, Retrieve (video_id video) (Returns video')]"
      from 1(2) nonterm Returns have "poll env video' ?w' = Some y"
        by (simp add: retrieve_after_sleep)
      from 1(1) [OF this] obtain n evs where
        rec: "poll_run env n (fetch_count (trace ?w')) video' = Some (fst y, evs)"
        and y: "snd y = extend ?w' evs"
        by blast
      from rec nonterm Returns
      have "poll_run env (Suc n) (fetch_count (trace w)) video =
              Some (fst y, Sleep 10 # Retrieve (video_id video) (Returns video') # evs)"
        by simp
      moreover from y have "snd y = extend w (Sleep 10 # Retrieve (video_id video) (Returns video') # evs)"
        by simp
      ultimately show ?thesis by blast
    qed
  qed
qed

lemma image_poll_sound:
  "poll_run env n (fetch_count (trace w)) video = Some (r, evs) \<Longrightarrow>
   image_poll env video w = Some (r, extend w evs)"
proof (induction n arbitrary: w video r evs)
  case 0
  then show ?case
    by (subst image_poll.simps) (simp split: if_splits)
next
  case (Suc n)
  show ?case
  proof (cases "status video \<notin> set terminal")
    case False
    with Suc.prems show ?thesis
      by (subst image_poll.simps) simp
  next
    case True
    note nonterm = this
    show ?thesis
    proof (cases "retrieve_response env (fetch_count (trace w))")
      case (Raises e)
      from Suc.prems nonterm Raises
      have "r = Raises e" "evs = [Sleep 10, Retrieve (video_id video) (Raises e)]"
        by auto
      with nonterm Raises show ?thesis
        by (subst image_poll.simps) (simp add: retrieve_after_sleep)
    next
      case (Returns video')
      let ?w' = "extend w [Sleep 10, Retrieve (video_id video) (Returns video')]"
      from Suc.prems nonterm Returns obtain evs' where
        rec: "poll_run env n (Suc (fetch_count (trace w))) video' = Some (r, evs')"
        and evs: "evs = Sleep 10 # Retrieve (video_id video) (Returns video') # evs'"
        by auto
      have "fetch_count (trace ?w') = Suc (fetch_count (trace w))"
        by simp
      with rec Suc.IH [of ?w' video' r evs']
      have "image_poll env video' ?w' = Some (r, extend ?w' evs')"
        by simp
      with nonterm Returns evs show ?thesis
        by (subst image_poll.simps) (simp add: retrieve_after_sleep)
    qed
  qed
qed

lemma image_poll_complete:
  "image_poll env video w = Some y \<Longrightarrow>
   \<exists>n evs. poll_run env n (fetch_count (trace w)) video = Some (fst y, evs) \<and> snd y = extend w evs"
proof (induct rule: image_poll.raw_induct [rotated 1, consumes 1])
  case (1 poll env video w y)
  show ?case
  proof (cases "status video \<notin> set terminal")
    case False
    with 1(2) have "poll_run env 0 (fetch_count (trace w)) video = Some (fst y, []) \<and> snd y = extend w []"
      by auto
    then show ?thesis by blast
  next
    case True
    note nonterm = this
    show ?thesis
    proof (cases "retrieve_response env (fetch_count (trace w))")
      case (Raises e)
      with 1(2) nonterm
      have "poll_run env (Suc 0) (fetch_count (trace w)) video =
              Some (fst y, [Sleep 10, Retrieve (video_id video) (Raises e)]) \<and>
            snd y = extend w [Sleep 10, Retrieve (video_id video) (Raises e)]"
        by (auto simp: retrieve_after_sleep)
      then show ?thesis by blast
    next
      case (Returns video')
      let ?w' = "extend w [Sleep 10, Retrieve (video_id video) (Returns video')]"
      from 1(2) nonterm Returns have "poll env video' ?w' = Some y"
        by (simp add: retrieve_after_sleep)
      from 1(1) [OF this] obtain n evs where
        rec: "poll_run env n (fetch_count (trace ?w')) video' = Some (fst y, evs)"
        and y: "snd y = extend ?w' evs"
        by blast
      from rec nonterm Returns
      have "poll_run env (Suc n) (fetch_count (trace w)) video =
              Some (fst y, Sleep 10 # Retrieve (video_id video) (Returns video') # evs)"
        by simp
      moreover from y have "snd y = extend w (Sleep 10 # Retrieve (video_id video) (Returns video') # evs)"
        by simp
      ultimately show ?thesis by blast
    qed
  qed
qed

text \<open>The two loops are the same function.\<close>

lemma image_poll_eq_text_poll: "image_poll env video w = text_poll env video w"
proof (cases "image_poll env video w")
  case None
  show ?thesis
  proof (cases "text_poll env video w")
    case None
    with \<open>image_poll env video w = None\<close> show ?thesis by simp
  next
    case (Some y)
    from text_poll_complete [OF Some] obtain n evs where
      "poll_run env n (fetch_count (trace w)) video = Some (fst y, evs)" by blast
    from image_poll_sound [OF this] None show ?thesis by simp
  qed
next
  case (Some y)
  from image_poll_complete [OF Some] obtain n evs where
    "poll_run env n (fetch_count (trace w)) video = Some (fst y, evs)" "snd y = extend w evs"
    by blast
  with text_poll_sound [of env n w video "fst y" evs] Some show ?thesis
    by (metis prod.collapse)
qed

section \<open>The functions in terms of their parts\<close>

lemma text_to_video_sora2_unfold:
  "text_to_video_sora2 env prompt size' seconds w =
     (let args = \<lparr>arg_model = ''sora-2'', arg_prompt = prompt, arg_input_reference = None,
                  arg_size = size', arg_seconds = seconds\<rparr>;
          w1 = extend w [Create args (create_response env)]
      in case create_response env of
           Raises e \<Rightarrow> Some (except_Exception e w1)
         | Returns video0 \<Rightarrow>
             map_option (\<lambda>(r, w2). after_poll env r w2) (text_poll env video0 w1))"
  by (simp add: text_to_video_sora2_def videos_create_extend after_poll_def videofile_def Let_def
           split: outcome.splits option.splits prod.splits)

lemma image_to_video_sora2_unfold:
  "image_to_video_sora2 env prompt image_file size' seconds w =
     (case py_open image_file ''rb'' w of
        (Raises e, w0) \<Rightarrow> Some (except_Exception e w0)
      | (Returns f, w0) \<Rightarrow>
          (let args = \<lparr>arg_model = ''sora-2'', arg_prompt = prompt, arg_input_reference = Some f,
                       arg_size = size', arg_seconds = seconds\<rparr>;
               w1 = py_close f (extend w0 [Create args (create_response env)])
           in case create_response env of
                Raises e \<Rightarrow> Some (except_Exception e w1)
              | Returns video0 \<Rightarrow>
                  map_option (\<lambda>(r, w2). after_poll env r w2) (text_poll env video0 w1)))"
  by (simp add: image_to_video_sora2_def videos_create_extend after_poll_def videofile_def Let_def
                image_poll_eq_text_poll
           split: outcome.splits option.splits prod.splits)

section \<open>When the loop ends\<close>


lemma poll_run_result:
  "poll_run env n k video = Some (r, evs) \<Longrightarrow>
   (case r of
      Returns video' \<Rightarrow> status video' \<in> set terminal
    | Raises e \<Rightarrow> \<exists>j. k \<le> j \<and> j < k + n \<and> retrieve_response env j = Raises e)"
proof (induction n arbitrary: k video r evs)
  case 0
  then show ?case by (auto split: if_splits)
next
  case (Suc n)
  show ?case
  proof (cases "status video \<notin> set terminal")
    case False
    with Suc.prems show ?thesis by auto
  next
    case True
    note nonterm = this
    show ?thesis
    proof (cases "retrieve_response env k")
      case (Raises e)
      with Suc.prems nonterm have "r = Raises e" by auto
      with Raises show ?thesis by auto
    next
      case (Returns video')
      with Suc.prems nonterm obtain evs' where
        "poll_run env n (Suc k) video' = Some (r, evs')" by auto
      from Suc.IH [OF this] show ?thesis
        by (cases r) (auto intro: Suc_leD)
    qed
  qed
qed

lemma videofile_eq:
  "videofile d = VIDEO_DIR @ ''/sora2_video_'' @ strftime_file d @ ''.mp4''"
  by (simp add: videofile_def os_path_join_def VIDEO_DIR_def)


lemma write_to_file_cases:
  "(disk env = WriteSucceeds \<and>
    write_to_file env content path w =
      (Returns (), extend (w\<lparr>fs := (fs w)(path \<mapsto> File content)\<rparr>) [WriteToFile path content (Returns ())])) \<or>
   (\<exists>e w'. write_to_file env content path w = (Raises e, w') \<and>
      (disk env = OpenFails e \<or> (\<exists>n. disk env = WriteFailsAfter n e)) \<and>
      trace w' = trace w @ [WriteToFile path content (Raises e)] \<and> open_files w' = open_files w)"
  by (cases "disk env") (simp_all add: write_to_file_def emit_extend)


section \<open>The events of a run\<close>

lemma poll_run_events:
  "poll_run env n k video = Some (r, evs) \<Longrightarrow> list_all is_poll_event evs"
proof (induction n arbitrary: k video r evs)
  case 0
  then show ?case by (auto split: if_splits)
next
  case (Suc n)
  then show ?case
    by (auto split: if_splits outcome.splits)
qed

lemma fetches_before_download_append:
  "list_all is_poll_event pre \<Longrightarrow>
   fetches_before_download (pre @ rest) =
     map_option (\<lambda>n. fetch_count pre + n) (fetches_before_download rest)"
proof (induction pre)
  case Nil
  then show ?case by (simp add: option.map_ident)
next
  case (Cons e pre)
  then show ?case
    by (cases e) (simp_all add: option.map_comp comp_def)
qed

lemma poll_event_counts:
  "list_all is_poll_event evs \<Longrightarrow> download_count evs = 0 \<and> write_count evs = 0"
  by (induction evs) (auto elim: is_poll_event.elims)

lemma poll_run_pending:
  assumes "\<forall>j<N. pending (retrieve_response env (k + j))"
    and "retrieve_response env (k + N) = Returns video"
    and "status video \<in> set terminal"
    and "status video0 \<notin> set terminal"
  shows "\<exists>evs. poll_run env (Suc N) k video0 = Some (Returns video, evs) \<and>
               fetch_count evs = Suc N"
  using assms
proof (induction N arbitrary: k video0)
  case 0
  then show ?case by simp
next
  case (Suc N)
  from Suc.prems(1) have "pending (retrieve_response env (k + 0))" by blast
  then obtain video1 where v1: "retrieve_response env k = Returns video1"
    and nonterm: "status video1 \<notin> set terminal"
    by (cases "retrieve_response env k") auto
  from Suc.prems(1) have "\<forall>j<N. pending (retrieve_response env (Suc k + j))"
    by (metis Suc_less_eq add_Suc_right add_Suc)
  moreover from Suc.prems(2) have "retrieve_response env (Suc k + N) = Returns video"
    by simp
  ultimately obtain evs where
    "poll_run env (Suc N) (Suc k) video1 = Some (Returns video, evs)" "fetch_count evs = Suc N"
    using Suc.IH [of "Suc k" video1] Suc.prems(3) nonterm by blast
  with v1 Suc.prems(4) show ?case by simp
qed

lemma snd_except_Exception [simp]: "snd (except_Exception e w) = w"
  by (cases e) simp_all

lemma after_poll_completed_trace:
  assumes "status video = ''completed''"
  shows "\<exists>tail. trace (snd (after_poll env (Returns video) w)) =
           trace w @ DownloadContent (video_id video) ''video'' (download_response env) # tail \<and>
           fetch_count tail = 0"
proof (cases "download_response env")
  case (Raises e)
  with assms show ?thesis
    by (simp add: after_poll_def videos_download_content_extend)
next
  case (Returns content)
  with assms show ?thesis
    by (cases "disk env")
       (simp_all add: after_poll_def videos_download_content_extend write_to_file_def emit_extend)
qed

lemma quiet_prefix_fetches:
  "list_all (\<lambda>e. \<not> is_Retrieve e \<and> \<not> is_DownloadContent e) pre \<Longrightarrow>
   fetches_before_download (pre @ rest) = fetches_before_download rest"
  by (induction pre) (simp_all add: option.map_ident)

lemma quiet_prefix_fetch_count:
  "list_all (\<lambda>e. \<not> is_Retrieve e \<and> \<not> is_DownloadContent e) pre \<Longrightarrow> fetch_count pre = 0"
  by (induction pre) simp_all

lemma run_unfold:
  assumes "readable c files"
  shows "\<exists>w1. list_all (\<lambda>e. \<not> is_Retrieve e \<and> \<not> is_DownloadContent e) (trace w1) \<and>
           fs w1 = files \<and> open_files w1 = [] \<and> write_count (trace w1) = 0 \<and>
           last_status (trace w1) =
             (case create_response env of Raises e \<Rightarrow> None | Returns video0 \<Rightarrow> Some (status video0)) \<and>
           run env c (fresh files) =
             (case create_response env of
                Raises e \<Rightarrow> Some (except_Exception e w1)
              | Returns video0 \<Rightarrow>
                  map_option (\<lambda>(r, w2). after_poll env r w2) (text_poll env video0 w1))"
proof (cases c)
  case (TextToVideo prompt size' seconds)
  let ?args = "\<lparr>arg_model = ''sora-2'', arg_prompt = prompt, arg_input_reference = None,
                arg_size = size', arg_seconds = seconds\<rparr>"
  let ?w1 = "extend (fresh files) [Create ?args (create_response env)]"
  have "list_all (\<lambda>e. \<not> is_Retrieve e \<and> \<not> is_DownloadContent e) (trace ?w1)"
    and "fs ?w1 = files" and "open_files ?w1 = []" and "write_count (trace ?w1) = 0"
    and "last_status (trace ?w1) =
           (case create_response env of Raises e \<Rightarrow> None | Returns video0 \<Rightarrow> Some (status video0))"
    by (cases "create_response env"; simp add: fresh_def last_status_def)+
  moreover have "run env c (fresh files) =
      (case create_response env of
         Raises e \<Rightarrow> Some (except_Exception e ?w1)
       | Returns video0 \<Rightarrow>
           map_option (\<lambda>(r, w2). after_poll env r w2) (text_poll env video0 ?w1))"
    by (simp add: TextToVideo text_to_video_sora2_unfold Let_def)
  ultimately show ?thesis by blast
next
  case (ImageToVideo prompt image_file size' seconds)
  let ?args = "\<lparr>arg_model = ''sora-2'', arg_prompt = prompt,
                arg_input_reference = Some image_file,
                arg_size = size', arg_seconds = seconds\<rparr>"
  let ?w0 = "extend (fresh files\<lparr>open_files := image_file # open_files (fresh files)\<rparr>)
               [Open image_file ''rb'']"
  from ImageToVideo assms obtain b where readable: "files image_file = Some (File b)"
    by (auto split: option.splits node.splits)
  let ?w1 = "py_close image_file (extend ?w0 [Create ?args (create_response env)])"
  from readable have opened: "py_open image_file ''rb'' (fresh files) = (Returns image_file, ?w0)"
    by (simp add: py_open_def fresh_def emit_extend)
  have "list_all (\<lambda>e. \<not> is_Retrieve e \<and> \<not> is_DownloadContent e) (trace ?w1)"
    and "fs ?w1 = files" and "open_files ?w1 = []" and "write_count (trace ?w1) = 0"
    and "last_status (trace ?w1) =
           (case create_response env of Raises e \<Rightarrow> None | Returns video0 \<Rightarrow> Some (status video0))"
    by (cases "create_response env"; simp add: fresh_def last_status_def)+
  moreover have "run env c (fresh files) =
      (case create_response env of
         Raises e \<Rightarrow> Some (except_Exception e ?w1)
       | Returns video0 \<Rightarrow>
           map_option (\<lambda>(r, w2). after_poll env r w2) (text_poll env video0 ?w1))"
    by (simp add: ImageToVideo image_to_video_sora2_unfold Let_def opened)
  ultimately show ?thesis by blast
qed

section \<open>The status last observed\<close>

lemma status_after_append:
  "status_after s (xs @ ys) = status_after (status_after s xs) ys"
  by (induction xs arbitrary: s) simp_all

lemma last_status_append:
  "last_status (xs @ ys) = status_after (last_status xs) ys"
  by (simp add: last_status_def status_after_append)

lemma poll_run_status:
  "poll_run env n k video = Some (r, evs) \<Longrightarrow>
   (case r of
      Returns video' \<Rightarrow>
        status_after (Some (status video)) evs = Some (status video') \<and> status video' \<in> set terminal
    | Raises e \<Rightarrow>
        (\<exists>s. status_after (Some (status video)) evs = Some s \<and> s \<notin> set terminal))"
proof (induction n arbitrary: k video r evs)
  case 0
  then show ?case by (auto split: if_splits)
next
  case (Suc n)
  show ?case
  proof (cases "status video \<notin> set terminal")
    case False
    with Suc.prems show ?thesis by auto
  next
    case True
    note nonterm = this
    show ?thesis
    proof (cases "retrieve_response env k")
      case (Raises e)
      with Suc.prems nonterm have "r = Raises e" "evs = [Sleep 10, Retrieve (video_id video) (Raises e)]"
        by auto
      with nonterm show ?thesis by simp
    next
      case (Returns video')
      with Suc.prems nonterm obtain evs' where
        rec: "poll_run env n (Suc k) video' = Some (r, evs')"
        and evs: "evs = Sleep 10 # Retrieve (video_id video) (Returns video') # evs'"
        by auto
      from Suc.IH [OF rec] evs show ?thesis
        by (cases r) simp_all
    qed
  qed
qed

text \<open>
  A run that returns has either met an exception before a terminal status was seen, or
  has left its loop with a terminal job and done what follows the loop.
\<close>

lemma run_Some_cases:
  assumes "run env c (fresh files) = Some (r, w')"
  shows "(fs w' = files \<and> open_files w' = [] \<and>
          download_count (trace w') = 0 \<and> write_count (trace w') = 0 \<and>
          (\<forall>s. last_status (trace w') = Some s \<longrightarrow> s \<notin> set terminal) \<and>
          (\<exists>e. r = fst (except_Exception e w'))) \<or>
         (\<exists>video w2. status video \<in> set terminal \<and> last_status (trace w2) = Some (status video) \<and>
            fs w2 = files \<and> open_files w2 = [] \<and>
            download_count (trace w2) = 0 \<and> write_count (trace w2) = 0 \<and>
            (r, w') = after_poll env (Returns video) w2)"
proof (cases "readable c files")
  case False
  then obtain prompt image_file size' seconds where
    c: "c = ImageToVideo prompt image_file size' seconds"
    by (cases c) auto
  with False have "\<not> (\<exists>b. files image_file = Some (File b))"
    by (auto split: option.splits node.splits)
  with py_open_cases [of "fresh files" image_file "''rb''"] obtain msg where
    "py_open image_file ''rb'' (fresh files) = (Raises (Exception msg), fresh files)"
    by (auto simp: fresh_def)
  with assms c have "r = ReturnsFalse" "w' = fresh files"
    by (simp_all add: image_to_video_sora2_unfold)
  then have "fs w' = files \<and> open_files w' = [] \<and>
          download_count (trace w') = 0 \<and> write_count (trace w') = 0 \<and>
          (\<forall>s. last_status (trace w') = Some s \<longrightarrow> s \<notin> set terminal) \<and>
          r = fst (except_Exception (Exception []) w')"
    by (simp add: fresh_def last_status_def)
  then show ?thesis by blast
next
  case True
  from run_unfold [OF True, where env = env] obtain w1 where
    pre: "list_all (\<lambda>e. \<not> is_Retrieve e \<and> \<not> is_DownloadContent e) (trace w1)"
    and w1: "fs w1 = files" "open_files w1 = []" "write_count (trace w1) = 0"
    and st: "last_status (trace w1) =
               (case create_response env of Raises e \<Rightarrow> None | Returns video0 \<Rightarrow> Some (status video0))"
    and run: "run env c (fresh files) =
                (case create_response env of
                   Raises e \<Rightarrow> Some (except_Exception e w1)
                 | Returns video0 \<Rightarrow>
                     map_option (\<lambda>(r, w2). after_poll env r w2) (text_poll env video0 w1))"
    by blast
  from pre have dc: "download_count (trace w1) = 0"
    by (induction "trace w1" arbitrary: w1) (auto simp: download_count_def filter_empty_conv list_all_iff)
  from pre have fc: "fetch_count (trace w1) = 0"
    by (rule quiet_prefix_fetch_count)
  show ?thesis
  proof (cases "create_response env")
    case (Raises e)
    with run assms have "(r, w') = except_Exception e w1" by simp
    then have "r = fst (except_Exception e w')" "w' = w1"
      by (cases e; simp)+
    with w1 dc st Raises show ?thesis by auto
  next
    case (Returns video0)
    with run assms
    have "map_option (\<lambda>(r, w2). after_poll env r w2) (text_poll env video0 w1) = Some (r, w')"
      by simp
    then obtain out w2 where
      polled: "text_poll env video0 w1 = Some (out, w2)" and res: "(r, w') = after_poll env out w2"
      by (cases "text_poll env video0 w1") auto
    from text_poll_complete [OF polled] fc obtain n evs where
      unrolled: "poll_run env n 0 video0 = Some (out, evs)" and w2: "w2 = extend w1 evs"
      by auto
    from poll_run_events [OF unrolled] have quiet: "download_count evs = 0 \<and> write_count evs = 0"
      by (rule poll_event_counts)
    from st Returns have st1: "last_status (trace w1) = Some (status video0)" by simp
    show ?thesis
    proof (cases out)
      case (Raises e)
      with poll_run_status [OF unrolled] obtain s where
        "status_after (Some (status video0)) evs = Some s" "s \<notin> set terminal"
        by auto
      with st1 w2 have "\<forall>s. last_status (trace w2) = Some s \<longrightarrow> s \<notin> set terminal"
        by (simp add: last_status_append)
      moreover from res Raises have "r = fst (except_Exception e w')" "w' = w2"
        by (cases e; simp add: after_poll_def)+
      moreover from w1 dc quiet w2
      have "fs w2 = files" "open_files w2 = []" "download_count (trace w2) = 0"
        "write_count (trace w2) = 0"
        by simp_all
      ultimately show ?thesis by blast
    next
      case out: (Returns video)
      with poll_run_status [OF unrolled] st1 w2
      have "status video \<in> set terminal" "last_status (trace w2) = Some (status video)"
        by (simp_all add: last_status_append)
      moreover from w1 dc quiet w2
      have "fs w2 = files" "open_files w2 = []" "download_count (trace w2) = 0"
        "write_count (trace w2) = 0"
        by simp_all
      moreover from res out have "(r, w') = after_poll env (Returns video) w2" by simp
      ultimately show ?thesis by blast
    qed
  qed
qed


lemma after_poll_not_completed:
  assumes "status video \<in> set terminal" and "status video \<noteq> ''completed''"
  shows "after_poll env (Returns video) w = (ReturnsFalse, w)"
  using assms by (auto simp: after_poll_def terminal_def)

section \<open>Two scripted runs\<close>

lemma scripted_completed_run:
  "run (scripted 0 ''completed'') (TextToVideo ''A dog running on a beach'' ''1280x720'' 8)
     (fresh files) =
   Some (ReturnsStr ''videos/sora2_video_15Mar2025_143022.mp4'',
         \<lparr>fs = files(''videos/sora2_video_15Mar2025_143022.mp4'' \<mapsto> File ''FAKEMP4''),
          trace = [Create \<lparr>arg_model = ''sora-2'', arg_prompt = ''A dog running on a beach'',
                            arg_input_reference = None, arg_size = ''1280x720'', arg_seconds = 8\<rparr>
                     (Returns (job ''queued'')),
                   Sleep 10,
                   Retrieve ''video_123'' (Returns (job ''completed'')),
                   DownloadContent ''video_123'' ''video'' (Returns ''FAKEMP4''),
                   WriteToFile ''videos/sora2_video_15Mar2025_143022.mp4'' ''FAKEMP4'' (Returns ())],
          open_files = []\<rparr>)"
  by (simp add: text_to_video_sora2_def text_poll.simps scripted_def job_def terminal_def
        videos_create_def videos_retrieve_def videos_download_content_def write_to_file_def
        time_sleep_def emit_def fresh_def fetch_count_def os_path_join_def VIDEO_DIR_def
        strftime_file_def two_digits_def four_digits_def digit_def month_abbr_def Let_def)


section \<open>The transition system\<close>

lemma reaches_trans:
  assumes "reaches env c b d" and "reaches env c a b"
  shows "reaches env c a d"
  using assms
proof (induction rule: reaches.induct)
  case reaches_here
  then show ?case .
next
  case (reaches_step b b')
  then show ?case by (blast intro: reaches.reaches_step)
qed

lemma reaches_one: "step env c a = Some b \<Longrightarrow> reaches env c a b"
  by (blast intro: reaches.intros)

lemma writes_guarded_append:
  "writes_guarded s (xs @ ys) = (writes_guarded s xs \<and> writes_guarded (status_after s xs) ys)"
  by (induction xs arbitrary: s) auto

lemma emit_trace [simp]: "trace (emit e w) = trace w @ [e]"
  by (simp add: emit_def)

lemma emit_fs [simp]: "fs (emit e w) = fs w"
  by (simp add: emit_def)

lemma emit_open_files [simp]: "open_files (emit e w) = open_files w"
  by (simp add: emit_def)

text \<open>One step keeps the trace guarded and the observed status in step with the program
  point; it touches the disk only from the point after the download.\<close>

lemma step_invariant:
  assumes "step env c (pc, w) = Some (pc', w')"
    and "writes_guarded None (trace w)"
    and "\<forall>s. point_status pc = Some s \<longrightarrow> last_status (trace w) = Some s"
  shows "writes_guarded None (trace w') \<and>
         (\<forall>s. point_status pc' = Some s \<longrightarrow> last_status (trace w') = Some s) \<and>
         ((write_count (trace w') \<noteq> write_count (trace w) \<or> fs w' \<noteq> fs w) \<longrightarrow>
            (\<exists>video content. pc = Downloaded video content))"
proof (cases pc)
  case Start
  with assms show ?thesis
    by (cases c; cases "create_response env")
       (auto simp: videos_create_def py_open_def writes_guarded_append last_status_def
          status_after_append
          split: option.splits node.splits)
next
  case (Opened f)
  with assms show ?thesis
    by (cases c; cases "create_response env")
       (auto simp: videos_create_def writes_guarded_append last_status_def status_after_append)
next
  case (Exiting f r)
  with assms show ?thesis
    by (cases r)
       (auto simp: py_close_def writes_guarded_append last_status_def status_after_append)
next
  case (Polling video)
  with assms show ?thesis
    by (cases "download_response env")
       (auto simp: videos_download_content_def time_sleep_def writes_guarded_append
          last_status_def status_after_append split: if_splits)
next
  case (Fetching video)
  with assms show ?thesis
    by (cases "retrieve_response env (fetch_count (trace w))")
       (auto simp: videos_retrieve_def Let_def writes_guarded_append last_status_def
          status_after_append)
next
  case (Downloaded video content)
  with assms show ?thesis
    by (cases "disk env")
       (auto simp: write_to_file_def Let_def writes_guarded_append last_status_def
          status_after_append)
next
  case (Handling e)
  with assms show ?thesis
    by (cases e) auto
next
  case (Done r)
  with assms show ?thesis by simp
qed

lemma reachable_invariant:
  assumes "reachable env c (fresh files) (pc, w)"
  shows "writes_guarded None (trace w) \<and>
         (\<forall>s. point_status pc = Some s \<longrightarrow> last_status (trace w) = Some s)"
proof -
  have "reaches env c (Start, fresh files) b \<Longrightarrow>
        writes_guarded None (trace (snd b)) \<and>
        (\<forall>s. point_status (fst b) = Some s \<longrightarrow> last_status (trace (snd b)) = Some s)" for b
  proof (induction rule: reaches.induct)
    case reaches_here
    show ?case by (simp add: fresh_def)
  next
    case (reaches_step b b')
    from step_invariant [of env c "fst b" "snd b" "fst b'" "snd b'"] reaches_step.hyps(2)
      reaches_step.IH
    show ?case by simp
  qed
  from this [of "(pc, w)"] assms show ?thesis
    by (simp add: reachable_def)
qed

section \<open>The functions and the transition system agree\<close>

lemma handling_reaches:
  "reaches env c (Handling e, w) (Done (fst (except_Exception e w)), w)"
  by (rule reaches_one) (cases e; simp)

lemma poll_run_reaches:
  "poll_run env n (fetch_count (trace w)) video = Some (r, evs) \<Longrightarrow>
   reaches env c (Polling video, w)
     (case r of Returns video' \<Rightarrow> Polling video' | Raises e \<Rightarrow> Handling e, extend w evs)"
proof (induction n arbitrary: w video r evs)
  case 0
  then show ?case
    by (auto split: if_splits intro: reaches.reaches_here)
next
  case (Suc n)
  show ?case
  proof (cases "status video \<notin> set terminal")
    case False
    with Suc.prems show ?thesis
      by (auto intro: reaches.reaches_here)
  next
    case True
    note nonterm = this
    then have sleep: "step env c (Polling video, w) = Some (Fetching video, time_sleep 10 w)"
      by simp
    show ?thesis
    proof (cases "retrieve_response env (fetch_count (trace w))")
      case (Raises e)
      from Suc.prems nonterm Raises
      have r: "r = Raises e" and evs: "evs = [Sleep 10, Retrieve (video_id video) (Raises e)]"
        by auto
      from Raises have "step env c (Fetching video, time_sleep 10 w) = Some (Handling e, extend w evs)"
        by (simp add: retrieve_after_sleep evs)
      with sleep have "reaches env c (Polling video, w) (Handling e, extend w evs)"
        by (blast intro: reaches.reaches_step reaches.reaches_here)
      with r show ?thesis by simp
    next
      case (Returns video')
      let ?w' = "extend w [Sleep 10, Retrieve (video_id video) (Returns video')]"
      from Suc.prems nonterm Returns obtain evs' where
        rec: "poll_run env n (Suc (fetch_count (trace w))) video' = Some (r, evs')"
        and evs: "evs = Sleep 10 # Retrieve (video_id video) (Returns video') # evs'"
        by auto
      from Returns have "step env c (Fetching video, time_sleep 10 w) = Some (Polling video', ?w')"
        by (simp add: retrieve_after_sleep)
      with sleep have first: "reaches env c (Polling video, w) (Polling video', ?w')"
        by (blast intro: reaches.reaches_step reaches.reaches_here)
      have "fetch_count (trace ?w') = Suc (fetch_count (trace w))" by simp
      with rec Suc.IH [of ?w' video' r evs']
      have "reaches env c (Polling video', ?w')
              (case r of Returns video' \<Rightarrow> Polling video' | Raises e \<Rightarrow> Handling e, extend ?w' evs')"
        by simp
      from reaches_trans [OF this first] evs show ?thesis by simp
    qed
  qed
qed

lemma after_poll_reaches:
  assumes "status video \<in> set terminal"
  shows "reaches env c (Polling video, w)
           (Done (fst (after_poll env (Returns video) w)), snd (after_poll env (Returns video) w))"
proof (cases "status video = ''completed''")
  case False
  with assms have "step env c (Polling video, w) = Some (Done ReturnsFalse, w)"
    by (auto simp: terminal_def)
  moreover from assms False have "after_poll env (Returns video) w = (ReturnsFalse, w)"
    by (rule after_poll_not_completed)
  ultimately show ?thesis by (simp add: reaches_one)
next
  case True
  note completed = this
  let ?w3 = "extend w [DownloadContent (video_id video) ''video'' (download_response env)]"
  show ?thesis
  proof (cases "download_response env")
    case (Raises e)
    with completed have "step env c (Polling video, w) = Some (Handling e, ?w3)"
      by (simp add: terminal_def videos_download_content_extend)
    then have "reaches env c (Polling video, w) (Handling e, ?w3)" by (rule reaches_one)
    from reaches_trans [OF handling_reaches this] completed Raises show ?thesis
      by (simp add: after_poll_def videos_download_content_extend)
  next
    case (Returns content)
    with completed have "step env c (Polling video, w) = Some (Downloaded video content, ?w3)"
      by (simp add: terminal_def videos_download_content_extend)
    then have first: "reaches env c (Polling video, w) (Downloaded video content, ?w3)"
      by (rule reaches_one)
    show ?thesis
    proof (cases "write_to_file env content (videofile (now env)) ?w3")
      case (Pair u w4)
      show ?thesis
      proof (cases u)
        case Returns': (Returns x)
        with Pair have "step env c (Downloaded video content, ?w3) =
            Some (Done (ReturnsStr (videofile (now env))), w4)"
          by (simp add: videofile_def)
        with first have "reaches env c (Polling video, w) (Done (ReturnsStr (videofile (now env))), w4)"
          by (blast intro: reaches.reaches_step)
        with completed Returns Pair Returns' show ?thesis
          by (simp add: after_poll_def videos_download_content_extend)
      next
        case (Raises e)
        with Pair have "step env c (Downloaded video content, ?w3) = Some (Handling e, w4)"
          by (simp add: videofile_def)
        with first have "reaches env c (Polling video, w) (Handling e, w4)"
          by (blast intro: reaches.reaches_step)
        from reaches_trans [OF handling_reaches this] completed Returns Pair Raises
        show ?thesis
          by (simp add: after_poll_def videos_download_content_extend)
      qed
    qed
  qed
qed

lemma text_poll_reaches:
  assumes "text_poll env video0 w1 = Some (r, w2)"
  shows "reaches env c (Polling video0, w1) (Done (fst (after_poll env r w2)), snd (after_poll env r w2))"
proof -
  from text_poll_complete [OF assms] obtain n evs where
    unrolled: "poll_run env n (fetch_count (trace w1)) video0 = Some (r, evs)"
    and w2: "w2 = extend w1 evs"
    by auto
  from poll_run_reaches [OF unrolled, of c] w2
  have first: "reaches env c (Polling video0, w1)
                 (case r of Returns video' \<Rightarrow> Polling video' | Raises e \<Rightarrow> Handling e, w2)"
    by simp
  show ?thesis
  proof (cases r)
    case (Raises e)
    with first have "reaches env c (Polling video0, w1) (Handling e, w2)" by simp
    from reaches_trans [OF handling_reaches this] Raises show ?thesis
      by (simp add: after_poll_def)
  next
    case (Returns video)
    with poll_run_result [OF unrolled] have "status video \<in> set terminal" by simp
    from reaches_trans [OF after_poll_reaches [OF this]] first Returns show ?thesis
      by simp
  qed
qed

lemma run_reachable:
  assumes "run env c w = Some (r, w')"
  shows "reachable env c w (Done r, w')"
proof (cases c)
  case (TextToVideo prompt size' seconds)
  let ?args = "\<lparr>arg_model = ''sora-2'', arg_prompt = prompt, arg_input_reference = None,
                arg_size = size', arg_seconds = seconds\<rparr>"
  let ?w1 = "extend w [Create ?args (create_response env)]"
  show ?thesis
  proof (cases "create_response env")
    case (Raises e)
    with TextToVideo have "step env c (Start, w) = Some (Handling e, ?w1)"
      by (simp add: videos_create_extend)
    then have "reaches env c (Start, w) (Handling e, ?w1)" by (rule reaches_one)
    from reaches_trans [OF handling_reaches this] assms TextToVideo Raises show ?thesis
      by (cases e; simp add: reachable_def text_to_video_sora2_unfold Let_def)
  next
    case (Returns video0)
    with TextToVideo have "step env c (Start, w) = Some (Polling video0, ?w1)"
      by (simp add: videos_create_extend)
    then have first: "reaches env c (Start, w) (Polling video0, ?w1)" by (rule reaches_one)
    from assms TextToVideo Returns
    have "map_option (\<lambda>(r, w2). after_poll env r w2) (text_poll env video0 ?w1) = Some (r, w')"
      by (simp add: text_to_video_sora2_unfold Let_def)
    then obtain out w2 where polled: "text_poll env video0 ?w1 = Some (out, w2)"
      and res: "after_poll env out w2 = (r, w')"
      by (cases "text_poll env video0 ?w1") auto
    from reaches_trans [OF text_poll_reaches [OF polled] first] res show ?thesis
      by (simp add: reachable_def)
  qed
next
  case (ImageToVideo prompt image_file size' seconds)
  let ?args = "\<lparr>arg_model = ''sora-2'', arg_prompt = prompt,
                arg_input_reference = Some image_file,
                arg_size = size', arg_seconds = seconds\<rparr>"
  let ?w0 = "extend (w\<lparr>open_files := image_file # open_files w\<rparr>) [Open image_file ''rb'']"
  let ?wc = "extend ?w0 [Create ?args (create_response env)]"
  let ?w1 = "py_close image_file ?wc"
  from py_open_cases [of w image_file "''rb''"] show ?thesis
  proof (elim disjE exE conjE)
    fix msg
    assume failed: "py_open image_file ''rb'' w = (Raises (Exception msg), w)"
    with ImageToVideo have "step env c (Start, w) = Some (Handling (Exception msg), w)"
      by simp
    then have "reaches env c (Start, w) (Handling (Exception msg), w)" by (rule reaches_one)
    from reaches_trans [OF handling_reaches this] assms ImageToVideo failed show ?thesis
      by (simp add: reachable_def image_to_video_sora2_unfold)
  next
    fix b
    assume opened: "py_open image_file ''rb'' w = (Returns image_file, ?w0)"
    with ImageToVideo have "step env c (Start, w) = Some (Opened image_file, ?w0)"
      by simp
    moreover from ImageToVideo
    have "step env c (Opened image_file, ?w0) = Some (Exiting image_file (create_response env), ?wc)"
      by (simp add: videos_create_extend)
    ultimately have first:
      "reaches env c (Start, w) (Exiting image_file (create_response env), ?wc)"
      by (blast intro: reaches.intros)
    show ?thesis
    proof (cases "create_response env")
      case (Raises e)
      then have "step env c (Exiting image_file (create_response env), ?wc) = Some (Handling e, ?w1)"
        by simp
      with first have "reaches env c (Start, w) (Handling e, ?w1)"
        by (blast intro: reaches.reaches_step)
      from reaches_trans [OF handling_reaches this] assms ImageToVideo opened Raises
      show ?thesis
        by (cases e; simp add: reachable_def image_to_video_sora2_unfold Let_def)
    next
      case (Returns video0)
      then have "step env c (Exiting image_file (create_response env), ?wc) =
                   Some (Polling video0, ?w1)"
        by simp
      with first have second: "reaches env c (Start, w) (Polling video0, ?w1)"
        by (blast intro: reaches.reaches_step)
      from assms ImageToVideo opened Returns
      have "map_option (\<lambda>(r, w2). after_poll env r w2) (text_poll env video0 ?w1) = Some (r, w')"
        by (simp add: image_to_video_sora2_unfold Let_def)
      then obtain out w2 where polled: "text_poll env video0 ?w1 = Some (out, w2)"
        and res: "after_poll env out w2 = (r, w')"
        by (cases "text_poll env video0 ?w1") auto
      from reaches_trans [OF text_poll_reaches [OF polled] second] res show ?thesis
        by (simp add: reachable_def)
    qed
  qed
qed

text \<open>The trace of a run that returns is guarded as well.\<close>

lemma run_writes_guarded:
  assumes "run env c (fresh files) = Some (r, w')"
  shows "writes_guarded None (trace w')"
  using reachable_invariant [OF run_reachable [OF assms]] by simp

section \<open>The reference image\<close>

lemma image_step_invariant:
  assumes "step env (ImageToVideo prompt image_file size' seconds) (pc, w) = Some (pc', w')"
    and "open_files w = (if in_with_block pc then [image_file] else [])"
    and "list_all (\<lambda>e. is_Open e \<longrightarrow> e = Open image_file ''rb'') (trace w)"
    and "\<forall>f r. pc = Opened f \<or> pc = Exiting f r \<longrightarrow> f = image_file"
  shows "open_files w' = (if in_with_block pc' then [image_file] else []) \<and>
         list_all (\<lambda>e. is_Open e \<longrightarrow> e = Open image_file ''rb'') (trace w') \<and>
         (\<forall>f r. pc' = Opened f \<or> pc' = Exiting f r \<longrightarrow> f = image_file)"
proof (cases pc)
  case Start
  with assms show ?thesis
    by (auto simp: py_open_def split: option.splits node.splits)
next
  case (Opened f)
  with assms show ?thesis
    by (auto simp: videos_create_def)
next
  case (Exiting f r)
  with assms show ?thesis
    by (cases r) (auto simp: py_close_def)
next
  case (Polling video)
  with assms show ?thesis
    by (cases "download_response env")
       (auto simp: videos_download_content_def time_sleep_def split: if_splits)
next
  case (Fetching video)
  with assms show ?thesis
    by (cases "retrieve_response env (fetch_count (trace w))")
       (auto simp: videos_retrieve_def Let_def)
next
  case (Downloaded video content)
  with assms show ?thesis
    by (cases "disk env") (auto simp: write_to_file_def Let_def)
next
  case (Handling e)
  with assms show ?thesis
    by (cases e) auto
next
  case (Done r)
  with assms show ?thesis by simp
qed

lemma image_reachable_invariant:
  assumes "reachable env (ImageToVideo prompt image_file size' seconds) (fresh files) (pc, w)"
  shows "open_files w = (if in_with_block pc then [image_file] else []) \<and>
         list_all (\<lambda>e. is_Open e \<longrightarrow> e = Open image_file ''rb'') (trace w) \<and>
         (\<forall>f r. pc = Opened f \<or> pc = Exiting f r \<longrightarrow> f = image_file)"
proof -
  let ?c = "ImageToVideo prompt image_file size' seconds"
  have "reaches env ?c (Start, fresh files) b \<Longrightarrow>
        open_files (snd b) = (if in_with_block (fst b) then [image_file] else []) \<and>
        list_all (\<lambda>e. is_Open e \<longrightarrow> e = Open image_file ''rb'') (trace (snd b)) \<and>
        (\<forall>f r. fst b = Opened f \<or> fst b = Exiting f r \<longrightarrow> f = image_file)" for b
  proof (induction rule: reaches.induct)
    case reaches_here
    show ?case by (simp add: fresh_def)
  next
    case (reaches_step b b')
    from image_step_invariant [of env prompt image_file size' seconds "fst b" "snd b" "fst b'" "snd b'"]
      reaches_step.hyps(2) reaches_step.IH
    show ?case by simp
  qed
  from this [of "(pc, w)"] assms show ?thesis
    by (simp add: reachable_def)
qed

section \<open>The output directory\<close>

lemma videofile_not_VIDEO_DIR: "videofile d \<noteq> VIDEO_DIR"
  by (simp add: videofile_eq)

lemma after_poll_fs:
  "p \<noteq> videofile (now env) \<Longrightarrow> fs (snd (after_poll env r w)) p = fs w p"
proof (cases r)
  case (Raises e)
  then show ?thesis by (simp add: after_poll_def)
next
  case (Returns video)
  assume other: "p \<noteq> videofile (now env)"
  show ?thesis
  proof (cases "download_response env")
    case (Raises e)
    with Returns show ?thesis
      by (simp add: after_poll_def videos_download_content_extend)
  next
    case dl: (Returns content)
    with Returns other show ?thesis
      by (cases "disk env")
         (simp_all add: after_poll_def videos_download_content_extend write_to_file_def)
  qed
qed

lemma run_keeps_other_files:
  assumes "run env c (fresh files) = Some (r, w')" and "p \<noteq> videofile (now env)"
  shows "fs w' p = files p"
proof -
  from run_Some_cases [OF assms(1)] show ?thesis
  proof (elim disjE exE conjE)
    assume "fs w' = files"
    then show ?thesis by simp
  next
    fix video w2
    assume "fs w2 = files" and "(r, w') = after_poll env (Returns video) w2"
    with after_poll_fs [OF assms(2), of "Returns video" w2] show ?thesis
      by (metis snd_conv)
  qed
qed

lemma module_setup_existing:
  "files VIDEO_DIR = Some Dir \<Longrightarrow> module_setup files = Returns files"
  by (simp add: module_setup_def os_makedirs_def)

lemma module_setup_makes_directory:
  "module_setup files = Returns files1 \<Longrightarrow> files1 VIDEO_DIR = Some Dir"
  by (auto simp: module_setup_def os_makedirs_def split: option.splits if_splits)

section \<open>The timestamp\<close>
















section \<open>The two functions side by side\<close>

lemma text_poll_frame:
  assumes "fetch_count (trace wa) = fetch_count (trace wb)"
  shows "(text_poll env video wa = None \<and> text_poll env video wb = None) \<or>
         (\<exists>r evs. text_poll env video wa = Some (r, extend wa evs) \<and>
                   text_poll env video wb = Some (r, extend wb evs))"
proof (cases "text_poll env video wa")
  case None
  have "text_poll env video wb = None"
  proof (cases "text_poll env video wb")
    case (Some y)
    from text_poll_complete [OF Some] assms obtain n evs where
      "poll_run env n (fetch_count (trace wa)) video = Some (fst y, evs)"
      by auto
    from text_poll_sound [OF this] None show ?thesis by simp
  qed simp
  with None show ?thesis by simp
next
  case (Some y)
  from text_poll_complete [OF Some] obtain n evs where
    unrolled: "poll_run env n (fetch_count (trace wa)) video = Some (fst y, evs)"
    and y: "snd y = extend wa evs"
    by auto
  from unrolled assms have "poll_run env n (fetch_count (trace wb)) video = Some (fst y, evs)"
    by simp
  from text_poll_sound [OF this] Some y show ?thesis
    by (cases y) auto
qed

lemma after_poll_frame:
  "\<exists>res upd tail. \<forall>w. after_poll env r w = (res, extend (w\<lparr>fs := fs w ++ upd\<rparr>) tail)"
proof (cases r)
  case (Raises e)
  have "\<forall>w. after_poll env r w = (fst (except_Exception e undefined), extend (w\<lparr>fs := fs w ++ Map.empty\<rparr>) [])"
    using Raises by (cases e) (simp_all add: after_poll_def)
  then show ?thesis by blast
next
  case (Returns video)
  show ?thesis
  proof (cases "status video = ''completed''")
    case False
    with Returns
    have "\<forall>w. after_poll env r w =
            (if status video = ''failed'' \<or> status video = ''cancelled'' then ReturnsFalse
             else ReturnsNone, extend (w\<lparr>fs := fs w ++ Map.empty\<rparr>) [])"
      by (simp add: after_poll_def)
    then show ?thesis by blast
  next
    case True
    note completed = this
    let ?dl = "DownloadContent (video_id video) ''video'' (download_response env)"
    show ?thesis
    proof (cases "download_response env")
      case (Raises e)
      with Returns completed
      have "\<forall>w. after_poll env r w =
              (fst (except_Exception e undefined), extend (w\<lparr>fs := fs w ++ Map.empty\<rparr>) [?dl])"
        by (cases e) (simp_all add: after_poll_def videos_download_content_extend)
      then show ?thesis by blast
    next
      case dl: (Returns content)
      let ?path = "videofile (now env)"
      show ?thesis
      proof (cases "disk env")
        case WriteSucceeds
        with Returns completed dl
        have "\<forall>w. after_poll env r w =
                (ReturnsStr ?path,
                 extend (w\<lparr>fs := fs w ++ [?path \<mapsto> File content]\<rparr>)
                   [?dl, WriteToFile ?path content (Returns ())])"
          by (simp add: after_poll_def videos_download_content_extend write_to_file_def
                emit_extend extend_def)
        then show ?thesis by blast
      next
        case (OpenFails e)
        with Returns completed dl
        have "\<forall>w. after_poll env r w =
                (fst (except_Exception e undefined),
                 extend (w\<lparr>fs := fs w ++ Map.empty\<rparr>) [?dl, WriteToFile ?path content (Raises e)])"
          by (cases e)
             (simp_all add: after_poll_def videos_download_content_extend write_to_file_def
                emit_extend extend_def)
        then show ?thesis by blast
      next
        case (WriteFailsAfter n e)
        with Returns completed dl
        have "\<forall>w. after_poll env r w =
                (fst (except_Exception e undefined),
                 extend (w\<lparr>fs := fs w ++ [?path \<mapsto> File (take n content)]\<rparr>)
                   [?dl, WriteToFile ?path content (Raises e)])"
          by (cases e)
             (simp_all add: after_poll_def videos_download_content_extend write_to_file_def
                emit_extend extend_def)
        then show ?thesis by blast
      qed
    qed
  qed
qed

lemma runs_side_by_side:
  assumes "fetch_count (trace wa) = fetch_count (trace wb)"
    and "fs wa = fs wb" and "open_files wa = open_files wb"
    and "length (trace wa) = m" and "length (trace wb) = n"
  shows "map_option (after_events m)
           (case create_response env of
              Raises e \<Rightarrow> Some (except_Exception e wa)
            | Returns video0 \<Rightarrow> map_option (\<lambda>(r, w2). after_poll env r w2) (text_poll env video0 wa)) =
         map_option (after_events n)
           (case create_response env of
              Raises e \<Rightarrow> Some (except_Exception e wb)
            | Returns video0 \<Rightarrow> map_option (\<lambda>(r, w2). after_poll env r w2) (text_poll env video0 wb))"
proof (cases "create_response env")
  case (Raises e)
  with assms show ?thesis
    by (cases e) (simp_all add: after_events_def)
next
  case (Returns video0)
  from text_poll_frame [OF assms(1), of env video0] show ?thesis
  proof (elim disjE exE conjE)
    assume "text_poll env video0 wa = None" "text_poll env video0 wb = None"
    with Returns show ?thesis by simp
  next
    fix r evs
    assume polled: "text_poll env video0 wa = Some (r, extend wa evs)"
      "text_poll env video0 wb = Some (r, extend wb evs)"
    from after_poll_frame [of env r] obtain res upd tail where
      frame: "\<And>w. after_poll env r w = (res, extend (w\<lparr>fs := fs w ++ upd\<rparr>) tail)"
      by blast
    from Returns polled assms show ?thesis
      by (simp add: frame after_events_def)
  qed
qed

section \<open>What a run returns\<close>



text \<open>An exception that is no instance of Exception passes the handler.\<close>

lemma BaseException_propagates:
  "create_response env = Raises (BaseException msg) \<Longrightarrow>
   \<exists>w'. text_to_video_sora2 env prompt size' seconds w = Some (Propagates (BaseException msg), w')"
  by (simp add: text_to_video_sora2_unfold Let_def)




section \<open>The number of status fetches\<close>

text \<open>A job that is created terminal is never fetched again.\<close>

lemma created_terminal_no_fetch:
  assumes "create_response env = Returns video0" and "status video0 \<in> set terminal"
    and "readable c files"
  shows "\<exists>r w'. run env c (fresh files) = Some (r, w') \<and> fetch_count (trace w') = 0"
proof -
  from run_unfold [OF assms(3), where env = env] assms(1) obtain w1 where
    pre: "list_all (\<lambda>e. \<not> is_Retrieve e \<and> \<not> is_DownloadContent e) (trace w1)"
    and run: "run env c (fresh files) =
                map_option (\<lambda>(r, w2). after_poll env r w2) (text_poll env video0 w1)"
    by auto
  from assms(2) have "text_poll env video0 w1 = Some (Returns video0, w1)"
    by (subst text_poll.simps) simp
  with run have result: "run env c (fresh files) = Some (after_poll env (Returns video0) w1)"
    by simp
  from pre have fc: "fetch_count (trace w1) = 0"
    by (rule quiet_prefix_fetch_count)
  have "fetch_count (trace (snd (after_poll env (Returns video0) w1))) = 0"
  proof (cases "status video0 = ''completed''")
    case True
    from after_poll_completed_trace [OF True, of env w1] fc show ?thesis by auto
  next
    case False
    with fc show ?thesis by (simp add: after_poll_def)
  qed
  with result show ?thesis
    by (cases "after_poll env (Returns video0) w1") auto
qed

text \<open>
  Claim C2. The job is created with a status that is not terminal; the service answers
  the first \<open>N\<close> retrieve calls with a status that is not terminal and the next one
  with \<^verbatim>\<open>completed\<close>. Then the run ends, and its trace has exactly \<open>N + 1\<close>
  retrieve calls, all of them before the download call.
\<close>

theorem poll_fetches_N_plus_1:
  assumes "pending (create_response env)"
    and "\<forall>k<N. pending (retrieve_response env k)"
    and "retrieve_response env N = Returns video"
    and "status video = ''completed''"
    and "readable c files"
  shows "\<exists>r w'. run env c (fresh files) = Some (r, w') \<and>
           fetches_before_download (trace w') = Some (N + 1) \<and>
           fetch_count (trace w') = N + 1"
proof -
  from assms(1) obtain video0 where created: "create_response env = Returns video0"
    and nonterm: "status video0 \<notin> set terminal"
    by (cases "create_response env") auto
  from assms(4) have fin: "status video \<in> set terminal"
    by (simp add: terminal_def)
  from assms(2,3) fin nonterm obtain evs where
    unrolled: "poll_run env (Suc N) 0 video0 = Some (Returns video, evs)"
    and fetched: "fetch_count evs = Suc N"
    using poll_run_pending [of N env 0 video video0] by auto
  from run_unfold [OF assms(5), of env] created obtain w1 where
    pre: "list_all (\<lambda>e. \<not> is_Retrieve e \<and> \<not> is_DownloadContent e) (trace w1)"
    and run: "run env c (fresh files) =
                map_option (\<lambda>(r, w2). after_poll env r w2) (text_poll env video0 w1)"
    by auto
  from pre have fc: "fetch_count (trace w1) = 0"
    by (rule quiet_prefix_fetch_count)
  from pre have pre_fbd: "fetches_before_download (trace w1 @ rest) = fetches_before_download rest"
    for rest
    by (rule quiet_prefix_fetches)
  from unrolled fc have "text_poll env video0 w1 = Some (Returns video, extend w1 evs)"
    by (intro text_poll_sound [of env "Suc N"]) simp
  with run have result: "run env c (fresh files) = Some (after_poll env (Returns video) (extend w1 evs))"
    by simp
  from after_poll_completed_trace [OF assms(4), of env "extend w1 evs"] obtain tail where
    tr: "trace (snd (after_poll env (Returns video) (extend w1 evs))) =
           trace w1 @ evs @ DownloadContent (video_id video) ''video'' (download_response env) # tail"
    and tail: "fetch_count tail = 0"
    by auto
  from poll_run_events [OF unrolled] have "list_all is_poll_event evs" .
  with tr fetched pre_fbd
  have "fetches_before_download (trace (snd (after_poll env (Returns video) (extend w1 evs)))) =
          Some (N + 1)"
    by (simp add: fetches_before_download_append)
  moreover from tr fetched tail fc
  have "fetch_count (trace (snd (after_poll env (Returns video) (extend w1 evs)))) = N + 1"
    by simp
  ultimately show ?thesis
    using result by (cases "after_poll env (Returns video) (extend w1 evs)") auto
qed

theorem poll_fetches_N_plus_1_witness:
  "pending (create_response (scripted 2 ''completed'')) \<and>
   pending (retrieve_response (scripted 2 ''completed'') 0) \<and>
   pending (retrieve_response (scripted 2 ''completed'') 1) \<and>
   retrieve_response (scripted 2 ''completed'') 2 = Returns (job ''completed'') \<and>
   (\<exists>r w'. run (scripted 2 ''completed'') (TextToVideo ''A dog running on a beach'' ''1280x720'' 8)
              (fresh Map.empty) = Some (r, w') \<and>
      fetches_before_download (trace w') = Some 3 \<and> fetch_count (trace w') = 3)"
proof -
  have created: "pending (create_response (scripted 2 ''completed''))"
    by (simp add: scripted_def job_def terminal_def)
  have queued: "\<forall>k<2. pending (retrieve_response (scripted 2 ''completed'') k)"
    by (simp add: scripted_def job_def terminal_def)
  have finished: "retrieve_response (scripted 2 ''completed'') 2 = Returns (job ''completed'')"
    by (simp add: scripted_def)
  have completed: "status (job ''completed'') = ''completed''"
    by (simp add: job_def)
  have readable: "readable (TextToVideo ''A dog running on a beach'' ''1280x720'' 8) Map.empty"
    by simp
  from poll_fetches_N_plus_1 [OF created queued finished completed readable] created queued finished
  show ?thesis by simp
qed

section \<open>A job that fails or is cancelled\<close>



section \<open>A job that completes\<close>



section \<open>No write before the job has completed\<close>

text \<open>
  Claim C5. In a run of either function from a fresh world, a step that writes a file
  (the trace gains a write, or the files on the disk change) is taken only while the
  status last observed is \<^verbatim>\<open>completed\<close>; and in the trace of every state that can
  be reached, each write stands after an observation of \<^verbatim>\<open>completed\<close> with no other
  status observed in between.
\<close>

theorem no_write_before_completed:
  assumes "reachable env c (fresh files) (pc, w)"
    and "step env c (pc, w) = Some (pc', w')"
    and "write_count (trace w') \<noteq> write_count (trace w) \<or> fs w' \<noteq> fs w"
  shows "last_status (trace w) = Some ''completed'' \<and> writes_guarded None (trace w')"
proof -
  from reachable_invariant [OF assms(1)]
  have guarded: "writes_guarded None (trace w)"
    and observed: "\<forall>s. point_status pc = Some s \<longrightarrow> last_status (trace w) = Some s"
    by simp_all
  from step_invariant [OF assms(2) guarded observed] assms(3)
  obtain video content where "pc = Downloaded video content"
    and "writes_guarded None (trace w')"
    by blast
  with observed show ?thesis by simp
qed

theorem no_write_before_completed_witness:
  "(\<exists>w w'. reachable (scripted 0 ''completed'')
             (TextToVideo ''A dog running on a beach'' ''1280x720'' 8) (fresh Map.empty)
             (Downloaded (job ''completed'') ''FAKEMP4'', w) \<and>
           step (scripted 0 ''completed'') (TextToVideo ''A dog running on a beach'' ''1280x720'' 8)
             (Downloaded (job ''completed'') ''FAKEMP4'', w) =
             Some (Done (ReturnsStr ''videos/sora2_video_15Mar2025_143022.mp4''), w') \<and>
           write_count (trace w) = 0 \<and> write_count (trace w') = 1 \<and>
           last_status (trace w) = Some ''completed'' \<and> writes_guarded None (trace w'))"
proof -
  let ?env = "scripted 0 ''completed''"
  let ?c = "TextToVideo ''A dog running on a beach'' ''1280x720'' 8"
  let ?create = "Create \<lparr>arg_model = ''sora-2'', arg_prompt = ''A dog running on a beach'',
                          arg_input_reference = None, arg_size = ''1280x720'', arg_seconds = 8\<rparr>
                   (Returns (job ''queued''))"
  let ?fetch = "Retrieve ''video_123'' (Returns (job ''completed''))"
  let ?download = "DownloadContent ''video_123'' ''video'' (Returns ''FAKEMP4'')"
  let ?path = "''videos/sora2_video_15Mar2025_143022.mp4''"
  let ?w1 = "\<lparr>fs = Map.empty, trace = [?create], open_files = []\<rparr>"
  let ?w2 = "\<lparr>fs = Map.empty, trace = [?create, Sleep 10], open_files = []\<rparr>"
  let ?w3 = "\<lparr>fs = Map.empty, trace = [?create, Sleep 10, ?fetch], open_files = []\<rparr>"
  let ?w4 = "\<lparr>fs = Map.empty, trace = [?create, Sleep 10, ?fetch, ?download], open_files = []\<rparr>"
  let ?w5 = "\<lparr>fs = [?path \<mapsto> File ''FAKEMP4''],
              trace = [?create, Sleep 10, ?fetch, ?download, WriteToFile ?path ''FAKEMP4'' (Returns ())],
              open_files = []\<rparr>"
  have s1: "step ?env ?c (Start, fresh Map.empty) = Some (Polling (job ''queued''), ?w1)"
    by (simp add: scripted_def videos_create_def emit_def fresh_def)
  have s2: "step ?env ?c (Polling (job ''queued''), ?w1) = Some (Fetching (job ''queued''), ?w2)"
    by (simp add: job_def terminal_def time_sleep_def emit_def)
  have s3: "step ?env ?c (Fetching (job ''queued''), ?w2) = Some (Polling (job ''completed''), ?w3)"
    by (simp add: scripted_def job_def videos_retrieve_def emit_def Let_def)
  have s4: "step ?env ?c (Polling (job ''completed''), ?w3) =
              Some (Downloaded (job ''completed'') ''FAKEMP4'', ?w4)"
    by (simp add: scripted_def job_def terminal_def videos_download_content_def emit_def)
  have s5: "step ?env ?c (Downloaded (job ''completed'') ''FAKEMP4'', ?w4) =
              Some (Done (ReturnsStr ?path), ?w5)"
    by (simp add: scripted_def write_to_file_def emit_def os_path_join_def VIDEO_DIR_def
          strftime_file_def two_digits_def four_digits_def digit_def month_abbr_def Let_def)
  have reach: "reachable ?env ?c (fresh Map.empty) (Downloaded (job ''completed'') ''FAKEMP4'', ?w4)"
    unfolding reachable_def
    by (rule reaches_step [OF reaches_step [OF reaches_step [OF reaches_step [OF reaches_here s1] s2] s3] s4])
  have written: "write_count (trace ?w5) \<noteq> write_count (trace ?w4) \<or> fs ?w5 \<noteq> fs ?w4"
    by simp
  from no_write_before_completed [OF reach s5 written] reach s5
  show ?thesis
    by (intro exI [of _ ?w4] exI [of _ ?w5]) simp
qed

section \<open>The create call raises\<close>



section \<open>The reference image is held only around the create call\<close>

text \<open>
  Claim C7. In a run of the image function from a fresh world, the image file is open
  exactly at the program points inside the \<^verbatim>\<open>with\<close> block of lines 133-140; every
  open event of the trace opens the image path in the mode \<^verbatim>\<open>rb\<close>; once the create
  call has returned or raised, the next step closes the file; and the file is not open
  at the program points of the poll loop.
\<close>

theorem image_file_released_after_create:
  assumes "reachable env (ImageToVideo prompt image_file size' seconds) (fresh files) (pc, w)"
  shows "open_files w = (if in_with_block pc then [image_file] else []) \<and>
         list_all (\<lambda>e. is_Open e \<longrightarrow> e = Open image_file ''rb'') (trace w) \<and>
         (is_polling pc \<longrightarrow> open_files w = []) \<and>
         (\<forall>f r. pc = Exiting f r \<longrightarrow>
            (\<exists>pc'. step env (ImageToVideo prompt image_file size' seconds) (pc, w) =
                     Some (pc', py_close image_file w)) \<and>
            open_files (py_close image_file w) = [])"
proof -
  from image_reachable_invariant [OF assms]
  have held: "open_files w = (if in_with_block pc then [image_file] else [])"
    and opens: "list_all (\<lambda>e. is_Open e \<longrightarrow> e = Open image_file ''rb'') (trace w)"
    and name: "\<forall>f r. pc = Opened f \<or> pc = Exiting f r \<longrightarrow> f = image_file"
    by simp_all
  from held have "is_polling pc \<longrightarrow> open_files w = []"
    by (cases pc) simp_all
  moreover have "(\<exists>pc'. step env (ImageToVideo prompt image_file size' seconds) (pc, w) =
                     Some (pc', py_close image_file w)) \<and>
            open_files (py_close image_file w) = []"
    if "pc = Exiting f r" for f r
  proof -
    from that name have "f = image_file" by blast
    with that held show ?thesis by (cases r) simp_all
  qed
  ultimately show ?thesis
    using held opens by blast
qed

theorem image_file_released_after_create_witness:
  "(\<exists>w. reachable rejecting (ImageToVideo ''A dog running on a beach'' ''dog.png'' ''1280x720'' 8)
          (fresh [''dog.png'' \<mapsto> File ''PNG''])
          (Exiting ''dog.png'' (Raises (Exception ''BadRequestError'')), w) \<and>
        open_files w = [''dog.png''] \<and>
        trace w = [Open ''dog.png'' ''rb'',
                   Create \<lparr>arg_model = ''sora-2'', arg_prompt = ''A dog running on a beach'',
                            arg_input_reference = Some ''dog.png'', arg_size = ''1280x720'',
                            arg_seconds = 8\<rparr>
                     (Raises (Exception ''BadRequestError''))] \<and>
        step rejecting (ImageToVideo ''A dog running on a beach'' ''dog.png'' ''1280x720'' 8)
          (Exiting ''dog.png'' (Raises (Exception ''BadRequestError'')), w) =
          Some (Handling (Exception ''BadRequestError''), py_close ''dog.png'' w) \<and>
        open_files (py_close ''dog.png'' w) = [])"
proof -
  let ?c = "ImageToVideo ''A dog running on a beach'' ''dog.png'' ''1280x720'' 8"
  let ?files = "[''dog.png'' \<mapsto> File ''PNG'']"
  let ?create = "Create \<lparr>arg_model = ''sora-2'', arg_prompt = ''A dog running on a beach'',
                          arg_input_reference = Some ''dog.png'', arg_size = ''1280x720'',
                          arg_seconds = 8\<rparr>
                   (Raises (Exception ''BadRequestError''))"
  let ?w0 = "\<lparr>fs = ?files, trace = [Open ''dog.png'' ''rb''], open_files = [''dog.png'']\<rparr>"
  let ?w1 = "\<lparr>fs = ?files, trace = [Open ''dog.png'' ''rb'', ?create], open_files = [''dog.png'']\<rparr>"
  have s1: "step rejecting ?c (Start, fresh ?files) = Some (Opened ''dog.png'', ?w0)"
    by (simp add: py_open_def emit_def fresh_def)
  have s2: "step rejecting ?c (Opened ''dog.png'', ?w0) =
              Some (Exiting ''dog.png'' (Raises (Exception ''BadRequestError'')), ?w1)"
    by (simp add: rejecting_def scripted_def videos_create_def emit_def)
  have reach: "reachable rejecting ?c (fresh ?files)
                 (Exiting ''dog.png'' (Raises (Exception ''BadRequestError'')), ?w1)"
    unfolding reachable_def
    by (rule reaches_step [OF reaches_step [OF reaches_here s1] s2])
  from image_file_released_after_create [OF reach] reach
  show ?thesis
    by (intro exI [of _ ?w1]) simp
qed

section \<open>Setting up the output directory twice\<close>

text \<open>
  Claim C8. Line 31 does not fail when the output directory exists, and leaves the disk
  as it is. When it has succeeded once it succeeds again with no change, also after a
  run of either function in between: a run writes no other path than that of its video
  file, so the directory is still there.
\<close>

theorem module_setup_idempotent:
  "(files VIDEO_DIR = Some Dir \<longrightarrow> module_setup files = Returns files) \<and>
   (module_setup files = Returns files1 \<longrightarrow>
      module_setup files1 = Returns files1 \<and>
      (run env c (fresh files1) = Some (r, w') \<longrightarrow> module_setup (fs w') = Returns (fs w')))"
proof (intro conjI impI)
  assume "files VIDEO_DIR = Some Dir"
  then show "module_setup files = Returns files"
    by (rule module_setup_existing)
next
  assume "module_setup files = Returns files1"
  then have "files1 VIDEO_DIR = Some Dir"
    by (rule module_setup_makes_directory)
  then show "module_setup files1 = Returns files1"
    by (rule module_setup_existing)
next
  assume "module_setup files = Returns files1"
  then have made: "files1 VIDEO_DIR = Some Dir"
    by (rule module_setup_makes_directory)
  assume "run env c (fresh files1) = Some (r, w')"
  from run_keeps_other_files [OF this, of VIDEO_DIR] made
  have "fs w' VIDEO_DIR = Some Dir"
    by (simp add: videofile_not_VIDEO_DIR [symmetric])
  then show "module_setup (fs w') = Returns (fs w')"
    by (rule module_setup_existing)
qed

theorem module_setup_idempotent_witness:
  "module_setup Map.empty = Returns [''videos'' \<mapsto> Dir] \<and>
   [''videos'' \<mapsto> Dir] VIDEO_DIR = Some Dir \<and>
   module_setup [''videos'' \<mapsto> Dir] = Returns [''videos'' \<mapsto> Dir] \<and>
   (\<exists>w'. run (scripted 0 ''completed'') (TextToVideo ''A dog running on a beach'' ''1280x720'' 8)
            (fresh [''videos'' \<mapsto> Dir]) =
            Some (ReturnsStr ''videos/sora2_video_15Mar2025_143022.mp4'', w') \<and>
         module_setup (fs w') = Returns (fs w'))"
proof -
  have first: "module_setup Map.empty = Returns [''videos'' \<mapsto> Dir]"
    by (simp add: module_setup_def os_makedirs_def VIDEO_DIR_def)
  have exists: "[''videos'' \<mapsto> Dir] VIDEO_DIR = Some Dir"
    by (simp add: VIDEO_DIR_def)
  from module_setup_idempotent [of "[''videos'' \<mapsto> Dir]"] exists
  have again: "module_setup [''videos'' \<mapsto> Dir] = Returns [''videos'' \<mapsto> Dir]"
    by blast
  from module_setup_idempotent [of Map.empty "[''videos'' \<mapsto> Dir]"] first
    scripted_completed_run [of "[''videos'' \<mapsto> Dir]"]
  have "\<exists>w'. run (scripted 0 ''completed'') (TextToVideo ''A dog running on a beach'' ''1280x720'' 8)
            (fresh [''videos'' \<mapsto> Dir]) =
            Some (ReturnsStr ''videos/sora2_video_15Mar2025_143022.mp4'', w') \<and>
         module_setup (fs w') = Returns (fs w')"
    by blast
  with first exists again show ?thesis by blast
qed

section \<open>Two runs name their files apart\<close>



section \<open>The image function does what the text function does\<close>

text \<open>
  Claim C10. Against the same answers of the service, the disk and the clock, and with
  an image that can be opened, the image function and the text function agree on all
  that follows the create call: both return or neither does; they return the same
  result, leave the same files on the disk and no file open, and their traces are the
  same from the first poll on. The traces begin differently: the text function with its
  create call, which passes no reference image; the image function with the opening of
  the image, its create call, which passes the open image, and the closing.
\<close>

theorem image_run_like_text_run:
  assumes "files image_file = Some (File b)"
  shows "map_option (after_events 3)
           (image_to_video_sora2 env prompt image_file size' seconds (fresh files)) =
         map_option (after_events 1)
           (text_to_video_sora2 env prompt size' seconds (fresh files)) \<and>
         (\<forall>r w. image_to_video_sora2 env prompt image_file size' seconds (fresh files) = Some (r, w) \<longrightarrow>
            take 3 (trace w) =
              [Open image_file ''rb'',
               Create \<lparr>arg_model = ''sora-2'', arg_prompt = prompt,
                        arg_input_reference = Some image_file,
                        arg_size = size', arg_seconds = seconds\<rparr> (create_response env),
               Close image_file]) \<and>
         (\<forall>r w. text_to_video_sora2 env prompt size' seconds (fresh files) = Some (r, w) \<longrightarrow>
            take 1 (trace w) =
              [Create \<lparr>arg_model = ''sora-2'', arg_prompt = prompt,
                        arg_input_reference = None,
                        arg_size = size', arg_seconds = seconds\<rparr> (create_response env)])"
proof -
  let ?argsI = "\<lparr>arg_model = ''sora-2'', arg_prompt = prompt,
                  arg_input_reference = Some image_file,
                  arg_size = size', arg_seconds = seconds\<rparr>"
  let ?argsT = "\<lparr>arg_model = ''sora-2'', arg_prompt = prompt, arg_input_reference = None,
                  arg_size = size', arg_seconds = seconds\<rparr>"
  let ?w0 = "extend (fresh files\<lparr>open_files := image_file # open_files (fresh files)\<rparr>)
               [Open image_file ''rb'']"
  let ?wa = "py_close image_file (extend ?w0 [Create ?argsI (create_response env)])"
  let ?wb = "extend (fresh files) [Create ?argsT (create_response env)]"
  let ?tail = "\<lambda>w1. case create_response env of
                  Raises e \<Rightarrow> Some (except_Exception e w1)
                | Returns video0 \<Rightarrow>
                    map_option (\<lambda>(r, w2). after_poll env r w2) (text_poll env video0 w1)"
  from assms have opened: "py_open image_file ''rb'' (fresh files) = (Returns image_file, ?w0)"
    by (simp add: py_open_def fresh_def emit_extend)
  have image_run: "image_to_video_sora2 env prompt image_file size' seconds (fresh files) = ?tail ?wa"
    by (simp add: image_to_video_sora2_unfold Let_def opened)
  have text_run: "text_to_video_sora2 env prompt size' seconds (fresh files) = ?tail ?wb"
    by (simp add: text_to_video_sora2_unfold Let_def)
  have wa: "trace ?wa = [Open image_file ''rb'', Create ?argsI (create_response env), Close image_file]"
    and wb: "trace ?wb = [Create ?argsT (create_response env)]"
    by (simp_all add: fresh_def)
  have same: "map_option (after_events 3) (?tail ?wa) = map_option (after_events 1) (?tail ?wb)"
    by (rule runs_side_by_side) (simp_all add: fresh_def)
  have grows: "\<exists>evs. trace w = trace w1 @ evs" if "?tail w1 = Some (r, w)" for w1 r w
  proof (cases "create_response env")
    case (Raises e)
    with that show ?thesis by (cases e) auto
  next
    case (Returns video0)
    with that obtain out w2 where polled: "text_poll env video0 w1 = Some (out, w2)"
      and res: "after_poll env out w2 = (r, w)"
      by (cases "text_poll env video0 w1") auto
    from text_poll_complete [OF polled] obtain evs where "w2 = extend w1 evs" by auto
    moreover from after_poll_frame [of env out] res obtain tail where
      "trace w = trace w2 @ tail"
      by (metis snd_conv trace_extend world.select_convs(2) world.surjective world.update_convs(1))
    ultimately show ?thesis by auto
  qed
  have "take 3 (trace w) = trace ?wa"
    if "image_to_video_sora2 env prompt image_file size' seconds (fresh files) = Some (r, w)"
    for r w
    using grows [of ?wa r w] that image_run wa by auto
  moreover have "take 1 (trace w) = trace ?wb"
    if "text_to_video_sora2 env prompt size' seconds (fresh files) = Some (r, w)" for r w
    using grows [of ?wb r w] that text_run wb by auto
  ultimately show ?thesis
    using same image_run text_run wa wb by simp
qed

theorem image_run_like_text_run_witness:
  "[''dog.png'' \<mapsto> File ''PNG''] ''dog.png'' = Some (File ''PNG'') \<and>
   map_option (after_events 3)
     (image_to_video_sora2 (scripted 0 ''completed'') ''A dog running on a beach'' ''dog.png''
        ''1280x720'' 8 (fresh [''dog.png'' \<mapsto> File ''PNG''])) =
   Some (ReturnsStr ''videos/sora2_video_15Mar2025_143022.mp4'',
         [''dog.png'' \<mapsto> File ''PNG'',
          ''videos/sora2_video_15Mar2025_143022.mp4'' \<mapsto> File ''FAKEMP4''],
         [],
         [Sleep 10,
          Retrieve ''video_123'' (Returns (job ''completed'')),
          DownloadContent ''video_123'' ''video'' (Returns ''FAKEMP4''),
          WriteToFile ''videos/sora2_video_15Mar2025_143022.mp4'' ''FAKEMP4'' (Returns ())])"
proof -
  have readable: "[''dog.png'' \<mapsto> File ''PNG''] ''dog.png'' = Some (File ''PNG'')"
    by simp
  from image_run_like_text_run [where files = "[''dog.png'' \<mapsto> File ''PNG'']"
      and image_file = "''dog.png''" and b = "''PNG''" and env = "scripted 0 ''completed''"
      and prompt = "''A dog running on a beach''" and size' = "''1280x720''" and seconds = 8]
    readable
  have "map_option (after_events 3)
     (image_to_video_sora2 (scripted 0 ''completed'') ''A dog running on a beach'' ''dog.png''
        ''1280x720'' 8 (fresh [''dog.png'' \<mapsto> File ''PNG''])) =
     map_option (after_events 1)
       (run (scripted 0 ''completed'') (TextToVideo ''A dog running on a beach'' ''1280x720'' 8)
          (fresh [''dog.png'' \<mapsto> File ''PNG'']))"
    by simp
  with readable show ?thesis
    by (simp only: scripted_completed_run) (simp add: after_events_def)
qed

end
